theory Spec2Isabelle
  imports Complex_Main "HOL-Library.Multiset" "HOL-Library.Char_ord" "HOL-Library.List_Lexorder"
begin

section \<open>JavaScript numbers\<close>

text \<open>
  A JavaScript \<^verbatim>\<open>number\<close> is an IEEE-754 binary64 value. A finite one is represented by the
  real number it denotes, next to the two infinities and NaN. The two zeros are identified:
  \<^verbatim>\<open>==\<close>, \<^verbatim>\<open><\<close> and \<^verbatim>\<open>Number.isFinite\<close> do not tell them apart, and a division by
  zero takes the zero as positive.
\<close>

datatype number = Num real | PosInf | NegInf | NaN

definition pow2 :: "int \<Rightarrow> real" where
  "pow2 e = power_int 2 e"

text \<open>The binade of a positive real \<open>a\<close> is the \<open>e\<close> with \<open>2^e \<le> a < 2^(e+1)\<close>,
  found by halving or doubling.\<close>

function log2_up :: "real \<Rightarrow> int" where
  "log2_up a = (if a < 2 then 0 else 1 + log2_up (a / 2))"
  by pat_completeness auto
termination
  by (relation "measure (\<lambda>a. nat \<lfloor>a\<rfloor>)") (auto, linarith)

function log2_down :: "real \<Rightarrow> int" where
  "log2_down a = (if a \<le> 0 \<or> 1 \<le> a then 0 else log2_down (2 * a) - 1)"
  by pat_completeness auto
termination
proof (relation "measure (\<lambda>a. nat \<lceil>1 / a\<rceil>)")
  show "wf (measure (\<lambda>a::real. nat \<lceil>1 / a\<rceil>))" by simp
next
  fix a :: real
  assume "\<not> (a \<le> 0 \<or> 1 \<le> a)"
  then have a: "0 < a" "a < 1" by auto
  then have "1 < 1 / a" by simp
  then have c: "2 \<le> \<lceil>1 / a\<rceil>" by linarith
  have "1 / (2 * a) = (1 / a) / 2" by simp
  also have "\<dots> \<le> of_int \<lceil>1 / a\<rceil> / 2" by (simp add: divide_right_mono)
  also have "\<dots> \<le> of_int (\<lceil>1 / a\<rceil> - 1)" using c by simp
  finally have "\<lceil>1 / (2 * a)\<rceil> \<le> \<lceil>1 / a\<rceil> - 1" by (rule ceiling_le)
  with c a show "(2 * a, a) \<in> measure (\<lambda>a. nat \<lceil>1 / a\<rceil>)" by simp
qed

declare log2_up.simps [simp del] log2_down.simps [simp del]

definition binade :: "real \<Rightarrow> int" where
  "binade a = (if 1 \<le> a then log2_up a else log2_down a)"

definition round_half_even :: "real \<Rightarrow> int" where
  "round_half_even t =
     (let f = \<lfloor>t\<rfloor>; d = t - of_int f
      in if d < 1 / 2 then f else if 1 / 2 < d then f + 1 else if even f then f else f + 1)"

text \<open>
  Rounding of an exact result to binary64, round-to-nearest, ties to even: 53 significant
  bits, least exponent \<open>-1022\<close> (below it the spacing stays \<open>2^-1074\<close>, the subnormal
  numbers), overflow to an infinity when the rounded magnitude reaches \<open>2^1024\<close>.
\<close>

definition round_double :: "real \<Rightarrow> number" where
  "round_double q =
     (if q = 0 then Num 0
      else let a = \<bar>q\<bar>;
               e = max (binade a) (- 1022);
               u = pow2 (e - 52);
               m = of_int (round_half_even (a / u)) * u
           in if pow2 1024 \<le> m then (if q < 0 then NegInf else PosInf)
              else Num (if q < 0 then - m else m))"

text \<open>A value of the model is a double when rounding leaves it unchanged.\<close>

definition is_double :: "number \<Rightarrow> bool" where
  "is_double x = (case x of Num q \<Rightarrow> round_double q = Num q | _ \<Rightarrow> True)"

definition isFinite :: "number \<Rightarrow> bool" where
  "isFinite x = (case x of Num q \<Rightarrow> True | _ \<Rightarrow> False)"

fun sign_of :: "number \<Rightarrow> int" where
  "sign_of (Num q) = (if q < 0 then - 1 else if q = 0 then 0 else 1)"
| "sign_of PosInf = 1"
| "sign_of NegInf = - 1"
| "sign_of NaN = 0"

definition inf_of :: "int \<Rightarrow> number" where
  "inf_of s = (if s < 0 then NegInf else PosInf)"

text \<open>The operators \<^verbatim>\<open>*\<close>, \<^verbatim>\<open>/\<close>, \<^verbatim>\<open>+\<close> and \<^verbatim>\<open><\<close> on numbers.\<close>

fun jmul :: "number \<Rightarrow> number \<Rightarrow> number" where
  "jmul (Num a) (Num b) = round_double (a * b)"
| "jmul NaN y = NaN"
| "jmul x NaN = NaN"
| "jmul x y = (if sign_of x * sign_of y = 0 then NaN else inf_of (sign_of x * sign_of y))"

fun jdiv :: "number \<Rightarrow> number \<Rightarrow> number" where
  "jdiv (Num a) (Num b) =
     (if b = 0 then (if a = 0 then NaN else inf_of (sign_of (Num a)))
      else round_double (a / b))"
| "jdiv NaN y = NaN"
| "jdiv x NaN = NaN"
| "jdiv (Num a) y = Num 0"
| "jdiv x (Num b) = inf_of (sign_of x * (if b < 0 then - 1 else 1))"
| "jdiv x y = NaN"

fun jadd :: "number \<Rightarrow> number \<Rightarrow> number" where
  "jadd (Num a) (Num b) = round_double (a + b)"
| "jadd NaN y = NaN"
| "jadd x NaN = NaN"
| "jadd PosInf NegInf = NaN"
| "jadd NegInf PosInf = NaN"
| "jadd (Num a) y = y"
| "jadd x y = x"

fun jlt :: "number \<Rightarrow> number \<Rightarrow> bool" where
  "jlt (Num a) (Num b) = (a < b)"
| "jlt NaN y = False"
| "jlt x NaN = False"
| "jlt x PosInf = (x \<noteq> PosInf)"
| "jlt NegInf y = (y \<noteq> NegInf)"
| "jlt x y = False"

fun Math_abs :: "number \<Rightarrow> number" where
  "Math_abs (Num q) = Num \<bar>q\<bar>"
| "Math_abs PosInf = PosInf"
| "Math_abs NegInf = PosInf"
| "Math_abs NaN = NaN"

text \<open>\<^verbatim>\<open>Math.round\<close> is \<open>\<lfloor>x + 1/2\<rfloor>\<close> computed exactly (a tie goes up, towards
  \<open>+\<infinity>\<close>); \<^verbatim>\<open>Math.floor\<close> and \<^verbatim>\<open>Math.trunc\<close> are exact as well.\<close>

fun Math_round :: "number \<Rightarrow> number" where
  "Math_round (Num q) = Num (of_int \<lfloor>q + 1 / 2\<rfloor>)"
| "Math_round x = x"

fun Math_floor :: "number \<Rightarrow> number" where
  "Math_floor (Num q) = Num (of_int \<lfloor>q\<rfloor>)"
| "Math_floor x = x"

fun Math_trunc :: "number \<Rightarrow> number" where
  "Math_trunc (Num q) = Num (of_int (if q < 0 then \<lceil>q\<rceil> else \<lfloor>q\<rfloor>))"
| "Math_trunc x = x"

text \<open>\<^verbatim>\<open>Math.pow(10, decimals)\<close> for an integer \<^verbatim>\<open>decimals\<close>: the double nearest to
  the power, which is the power itself for \<open>0 \<le> decimals \<le> 22\<close>. A fractional or NaN
  \<^verbatim>\<open>decimals\<close> is outside the model.\<close>

definition Math_pow10 :: "int \<Rightarrow> number" where
  "Math_pow10 decimals = round_double (power_int 10 decimals)"

text \<open>
  What the library takes from the JavaScript runtime and does not define itself: the
  conversion of a number to its shortest decimal text, \<^verbatim>\<open>parseFloat\<close>, the quoting of a
  string by \<^verbatim>\<open>JSON.stringify\<close>, \<^verbatim>\<open>String.prototype.toUpperCase\<close>, and the time value
  of \<^verbatim>\<open>new Date(s)\<close> (\<open>None\<close> for an invalid date, whose time value is NaN). They are
  parameters of the model. The last two are consulted only where the result is not
  written out below (\<open>toUpperCase\<close>, \<open>Date_parse\<close>).
\<close>

record runtime =
  Number_toString :: "number \<Rightarrow> string"
  parseFloat :: "string \<Rightarrow> number"
  JSON_quote :: "string \<Rightarrow> string"
  String_toUpperCase :: "string \<Rightarrow> string"
  Date_parse_string :: "string \<Rightarrow> int option"

text \<open>\<^verbatim>\<open>str.split(c)\<close> for a one-character separator.\<close>

fun split_on :: "char \<Rightarrow> string \<Rightarrow> string list" where
  "split_on c [] = [[]]"
| "split_on c (x # xs) =
     (if x = c then [] # split_on c xs
      else (case split_on c xs of p # ps \<Rightarrow> (x # p) # ps | [] \<Rightarrow> [[x]]))"

section \<open>Math utilities (util/math)\<close>

datatype RoundingMode = HALF_UP | DOWN | TRUNC

text \<open>The \<^verbatim>\<open>default\<close> branch of the \<^verbatim>\<open>switch\<close> rounds as \<^verbatim>\<open>HALF_UP\<close> does; the type
  \<^verbatim>\<open>RoundingMode\<close> has no fourth value.\<close>

definition roundStable :: "number \<Rightarrow> int \<Rightarrow> RoundingMode \<Rightarrow> number" where
  "roundStable x decimals mode =
     (if \<not> isFinite x then x
      else let factor = Math_pow10 decimals;
               scaled = jmul x factor;
               rounded = (case mode of
                            HALF_UP \<Rightarrow> Math_round scaled
                          | DOWN \<Rightarrow> Math_floor scaled
                          | TRUNC \<Rightarrow> Math_trunc scaled)
           in jdiv rounded factor)"

definition safeMultiply :: "runtime \<Rightarrow> number \<Rightarrow> number \<Rightarrow> number" where
  "safeMultiply rt a b =
     (let product = jmul a b
      in if jlt (Math_abs product) (round_double (1 / 10 ^ 10)) then
           (let aStr = Number_toString rt a;
                bStr = Number_toString rt b;
                aDecimals = length (case split_on CHR ''.'' aStr of p # q # r \<Rightarrow> q | _ \<Rightarrow> []);
                bDecimals = length (case split_on CHR ''.'' bStr of p # q # r \<Rightarrow> q | _ \<Rightarrow> []);
                totalDecimals = aDecimals + bDecimals
            in if 15 < totalDecimals then product else product)
         else product)"

section \<open>Units and the conversion engine (util/units, methods/grid)\<close>

datatype Unit = kWh | MWh | GWh | OtherUnit string

text \<open>
  What the library throws. \<open>Error\<close> is the plain \<^verbatim>\<open>Error\<close> with its message; the other
  three are the library's own error classes with the arguments of their constructors.
\<close>

datatype error =
    Error string
  | InvalidUnitError string
  | UnknownRegionError string
  | NoFactorForDateError string string

definition NonFiniteInput :: error where
  "NonFiniteInput = Error ''Energy and factor must be finite numbers''"

definition NegativeEnergy :: error where
  "NegativeEnergy = Error ''Energy cannot be negative''"

definition NegativeFactor :: error where
  "NegativeFactor = Error ''Emission factor cannot be negative''"

definition RegistryUninitialized :: error where
  "RegistryUninitialized = Error ''No factors available. Initialize factor registry first.''"

definition MWhToKWh :: "number \<Rightarrow> number" where
  "MWhToKWh x = jmul x (Num 1000)"

definition GWhToKWh :: "number \<Rightarrow> number" where
  "GWhToKWh x = jmul x (Num 1000000)"

fun normalizeToKWh :: "number \<Rightarrow> Unit \<Rightarrow> error + number" where
  "normalizeToKWh energy kWh = Inr energy"
| "normalizeToKWh energy MWh = Inr (MWhToKWh energy)"
| "normalizeToKWh energy GWh = Inr (GWhToKWh energy)"
| "normalizeToKWh energy (OtherUnit u) = Inl (InvalidUnitError u)"

definition toCO2eKg :: "runtime \<Rightarrow> number \<Rightarrow> Unit \<Rightarrow> number \<Rightarrow> error + number" where
  "toCO2eKg rt energy unit factorKgPerKWh =
     (if \<not> isFinite energy \<or> \<not> isFinite factorKgPerKWh then Inl NonFiniteInput
      else if jlt energy (Num 0) then Inl NegativeEnergy
      else if jlt factorKgPerKWh (Num 0) then Inl NegativeFactor
      else case normalizeToKWh energy unit of
             Inl e \<Rightarrow> Inl e
           | Inr energyKWh \<Rightarrow> Inr (safeMultiply rt energyKWh factorKgPerKWh))"

definition toCO2eTonnes :: "runtime \<Rightarrow> number \<Rightarrow> Unit \<Rightarrow> number \<Rightarrow> error + number" where
  "toCO2eTonnes rt energy unit factorKgPerKWh =
     (case toCO2eKg rt energy unit factorKgPerKWh of
        Inl e \<Rightarrow> Inl e
      | Inr co2eKg \<Rightarrow> Inr (jdiv co2eKg (Num 1000)))"

text \<open>\<^verbatim>\<open>inputs.map(f)\<close> where \<open>f\<close> may throw: the first exception ends the loop.\<close>

fun map_throwing :: "('a \<Rightarrow> error + 'b) \<Rightarrow> 'a list \<Rightarrow> error + 'b list" where
  "map_throwing f [] = Inr []"
| "map_throwing f (x # xs) =
     (case f x of
        Inl e \<Rightarrow> Inl e
      | Inr y \<Rightarrow> (case map_throwing f xs of Inl e \<Rightarrow> Inl e | Inr ys \<Rightarrow> Inr (y # ys)))"

record ConversionInput =
  ci_energy :: number
  ci_unit :: Unit
  ci_factorKgPerKWh :: number

definition batchToCO2eTonnes :: "runtime \<Rightarrow> ConversionInput list \<Rightarrow> error + number list" where
  "batchToCO2eTonnes rt inputs =
     map_throwing (\<lambda>input. toCO2eTonnes rt (ci_energy input) (ci_unit input)
                              (ci_factorKgPerKWh input)) inputs"

definition totalCO2eTonnes ::
  "runtime \<Rightarrow> ConversionInput list \<Rightarrow> int \<Rightarrow> RoundingMode \<Rightarrow> error + number" where
  "totalCO2eTonnes rt inputs decimals roundingMode =
     (case batchToCO2eTonnes rt inputs of
        Inl e \<Rightarrow> Inl e
      | Inr individualEmissions \<Rightarrow>
          (let total = foldl (\<lambda>sum emission. jadd sum emission) (Num 0) individualEmissions
           in Inr (roundStable total decimals roundingMode)))"

section \<open>Avoided emissions (methods/avoided)\<close>

record RoundingSpec =
  decimals :: "int option"
  mode :: "RoundingMode option"

record AvoidedInput =
  energy :: number
  inputUnit :: Unit
  factorKgPerKWh :: number
  rounding :: "RoundingSpec option"

text \<open>The result without its \<^verbatim>\<open>meta\<close> field, which holds a copy of the input's unit and
  rounding and the time of the call. \<open>usedFactorKgPerKWh\<close> is the field
  \<^verbatim>\<open>factorKgPerKWh\<close> of the result.\<close>

record AvoidedResult =
  tCO2e :: number
  kgCO2e :: number
  usedFactorKgPerKWh :: number
  energyKWh :: number

definition decimals_or_default :: "RoundingSpec option \<Rightarrow> int" where
  "decimals_or_default r =
     (case r of None \<Rightarrow> 6 | Some s \<Rightarrow> (case decimals s of None \<Rightarrow> 6 | Some d \<Rightarrow> d))"

definition mode_or_default :: "RoundingSpec option \<Rightarrow> RoundingMode" where
  "mode_or_default r =
     (case r of None \<Rightarrow> HALF_UP | Some s \<Rightarrow> (case mode s of None \<Rightarrow> HALF_UP | Some m \<Rightarrow> m))"

definition avoidedEmissions :: "runtime \<Rightarrow> AvoidedInput \<Rightarrow> error + AvoidedResult" where
  "avoidedEmissions rt input =
     (if \<not> isFinite (energy input) \<or> \<not> isFinite (factorKgPerKWh input)
        then Inl NonFiniteInput
      else if jlt (energy input) (Num 0) then Inl NegativeEnergy
      else if jlt (factorKgPerKWh input) (Num 0) then Inl NegativeFactor
      else case normalizeToKWh (energy input) (inputUnit input) of
             Inl e \<Rightarrow> Inl e
           | Inr energyKWh' \<Rightarrow>
               (let kgCO2e' = safeMultiply rt energyKWh' (factorKgPerKWh input);
                    tCO2e' = jdiv kgCO2e' (Num 1000);
                    decimals' = decimals_or_default (rounding input);
                    roundingMode = mode_or_default (rounding input);
                    roundedTCO2e = roundStable tCO2e' decimals' roundingMode;
                    roundedKgCO2e = roundStable kgCO2e' decimals' roundingMode
                in Inr \<lparr>tCO2e = roundedTCO2e, kgCO2e = roundedKgCO2e,
                         usedFactorKgPerKWh = factorKgPerKWh input,
                         energyKWh = energyKWh'\<rparr>))"

definition batchAvoidedEmissions ::
  "runtime \<Rightarrow> AvoidedInput list \<Rightarrow> error + AvoidedResult list" where
  "batchAvoidedEmissions rt inputs = map_throwing (avoidedEmissions rt) inputs"

definition totalAvoidedEmissions ::
  "runtime \<Rightarrow> AvoidedInput list \<Rightarrow> RoundingSpec option \<Rightarrow> error + AvoidedResult" where
  "totalAvoidedEmissions rt inputs rounding' =
     (case batchAvoidedEmissions rt inputs of
        Inl e \<Rightarrow> Inl e
      | Inr individualResults \<Rightarrow>
          (let totalKgCO2e = foldl (\<lambda>sum result. jadd sum (kgCO2e result)) (Num 0)
                               individualResults;
               totalTCO2e = foldl (\<lambda>sum result. jadd sum (tCO2e result)) (Num 0)
                              individualResults;
               totalEnergyKWh = foldl (\<lambda>sum result. jadd sum (energyKWh result)) (Num 0)
                                  individualResults;
               weightedFactor =
                 (if jlt (Num 0) totalEnergyKWh
                  then jdiv (foldl (\<lambda>sum result.
                                jadd sum (jmul (usedFactorKgPerKWh result) (energyKWh result)))
                              (Num 0) individualResults) totalEnergyKWh
                  else Num 0);
               decimals' = decimals_or_default rounding';
               roundingMode = mode_or_default rounding';
               roundedTCO2e = roundStable totalTCO2e decimals' roundingMode;
               roundedKgCO2e = roundStable totalKgCO2e decimals' roundingMode;
               roundedFactor = roundStable weightedFactor decimals' roundingMode
           in Inr \<lparr>tCO2e = roundedTCO2e, kgCO2e = roundedKgCO2e,
                    usedFactorKgPerKWh = roundedFactor,
                    energyKWh = totalEnergyKWh\<rparr>))"

section \<open>Factor registry and resolver (factors/index)\<close>

datatype Scope = operational | marginal | baseline

text \<open>An emission factor. The descriptive fields that no function of the registry reads
  (\<^verbatim>\<open>gas\<close>, \<^verbatim>\<open>source\<close>, \<^verbatim>\<open>uncertaintyPct\<close>, \<^verbatim>\<open>methodology\<close>, \<^verbatim>\<open>version\<close>) are left out.\<close>

record Factor =
  factor_id :: string
  region :: string
  scope :: Scope
  valueKgPerKWh :: number
  effectiveFrom :: string
  effectiveTo :: "string option"

record RegionMapping =
  code :: string
  name :: string
  iso2 :: "string option"
  iso3 :: "string option"
  unM49 :: "string option"

text \<open>The two module-level variables of the registry.\<close>

record registry =
  defaultFactorPack :: "Factor list"
  regionMappings :: "RegionMapping list"

record FactorResolutionOptions =
  opt_region :: "string option"
  opt_date :: "string option"
  opt_scope :: "Scope option"
  opt_overrides :: "Factor list option"

subsection \<open>Dates\<close>

text \<open>
  The time value of \<^verbatim>\<open>new Date(s)\<close>. For a date-only ISO string \<^verbatim>\<open>YYYY-MM-DD\<close> that names a
  day of the calendar, the format that the schemas of the library admit, it is midnight UTC
  of that day in milliseconds since 1970-01-01 (\<open>iso_date_only\<close>). For every other string
  (a date with a time, a day such as 2024-02-30, free text) it is what the runtime makes of
  the string, a time value or NaN.
\<close>

definition digit_val :: "char \<Rightarrow> nat option" where
  "digit_val c =
     map_of [(CHR ''0'', 0), (CHR ''1'', 1), (CHR ''2'', 2), (CHR ''3'', 3), (CHR ''4'', 4),
             (CHR ''5'', 5), (CHR ''6'', 6), (CHR ''7'', 7), (CHR ''8'', 8), (CHR ''9'', 9)] c"

definition digits_val :: "string \<Rightarrow> nat option" where
  "digits_val s =
     (if s \<noteq> [] \<and> list_all (\<lambda>c. digit_val c \<noteq> None) s
      then Some (foldl (\<lambda>n c. 10 * n + (case digit_val c of Some v \<Rightarrow> v | None \<Rightarrow> 0)) 0 s)
      else None)"

definition is_leap :: "nat \<Rightarrow> bool" where
  "is_leap y = (y mod 4 = 0 \<and> (y mod 100 \<noteq> 0 \<or> y mod 400 = 0))"

definition days_in_month :: "nat \<Rightarrow> nat \<Rightarrow> nat" where
  "days_in_month y m =
     (if m = 2 then (if is_leap y then 29 else 28)
      else if m = 4 \<or> m = 6 \<or> m = 9 \<or> m = 11 then 30 else 31)"

definition days_from_civil :: "nat \<Rightarrow> nat \<Rightarrow> nat \<Rightarrow> int" where
  "days_from_civil y m d =
     (let y' = (if m \<le> 2 then int y - 1 else int y);
          era = y' div 400;
          yoe = y' - era * 400;
          doy = (153 * (int m + (if 2 < m then - 3 else 9)) + 2) div 5 + int d - 1;
          doe = yoe * 365 + yoe div 4 - yoe div 100 + doy
      in era * 146097 + doe - 719468)"

definition iso_date_only :: "string \<Rightarrow> int option" where
  "iso_date_only s =
     (if length s = 10 \<and> s ! 4 = CHR ''-'' \<and> s ! 7 = CHR ''-'' then
        (case (digits_val (take 4 s), digits_val (take 2 (drop 5 s)), digits_val (drop 8 s)) of
           (Some y, Some m, Some d) \<Rightarrow>
             (if 1 \<le> m \<and> m \<le> 12 \<and> 1 \<le> d \<and> d \<le> days_in_month y m
              then Some (86400000 * days_from_civil y m d) else None)
         | _ \<Rightarrow> None)
      else None)"

definition Date_parse :: "runtime \<Rightarrow> string \<Rightarrow> int option" where
  "Date_parse rt s =
     (case iso_date_only s of Some t \<Rightarrow> Some t | None \<Rightarrow> Date_parse_string rt s)"

text \<open>\<^verbatim>\<open>a >= b\<close> and \<^verbatim>\<open>a <= b\<close> on two \<^verbatim>\<open>Date\<close> objects compare the time values, and
  are false when one of them is NaN.\<close>

fun date_ge :: "int option \<Rightarrow> int option \<Rightarrow> bool" where
  "date_ge (Some a) (Some b) = (b \<le> a)"
| "date_ge x y = False"

fun date_le :: "int option \<Rightarrow> int option \<Rightarrow> bool" where
  "date_le (Some a) (Some b) = (a \<le> b)"
| "date_le x y = False"

subsection \<open>Regions\<close>

text \<open>\<^verbatim>\<open>s.toUpperCase()\<close>. On a string of ASCII characters it maps the letters \<^verbatim>\<open>a\<close> to
  \<^verbatim>\<open>z\<close> to \<^verbatim>\<open>A\<close> to \<^verbatim>\<open>Z\<close> and leaves the rest. On a string with a character outside
  ASCII the result is the runtime's, which follows the case mappings of Unicode.\<close>

definition is_ascii :: "char \<Rightarrow> bool" where
  "is_ascii c = (\<not> digit7 c)"

definition upper_char :: "char \<Rightarrow> char" where
  "upper_char c =
     (case map_of (zip ''abcdefghijklmnopqrstuvwxyz'' ''ABCDEFGHIJKLMNOPQRSTUVWXYZ'') c of
        Some u \<Rightarrow> u | None \<Rightarrow> c)"

definition toUpperCase :: "runtime \<Rightarrow> string \<Rightarrow> string" where
  "toUpperCase rt s =
     (if list_all is_ascii s then map upper_char s else String_toUpperCase rt s)"

definition getRegionInfo :: "registry \<Rightarrow> string \<Rightarrow> RegionMapping option" where
  "getRegionInfo st regionCode =
     find (\<lambda>r. code r = regionCode \<or> iso2 r = Some regionCode \<or> iso3 r = Some regionCode
               \<or> unM49 r = Some regionCode) (regionMappings st)"

definition normalizeRegionCode :: "runtime \<Rightarrow> registry \<Rightarrow> string \<Rightarrow> string" where
  "normalizeRegionCode rt st regionCode =
     (if regionCode = [] then ''WORLD''
      else let upperCode = toUpperCase rt regionCode
           in case getRegionInfo st upperCode of
                Some regionInfo \<Rightarrow> code regionInfo
              | None \<Rightarrow> upperCode)"

subsection \<open>Resolution\<close>

text \<open>The filter of the candidates by region and scope, with the retry for \<^verbatim>\<open>WORLD\<close>.\<close>

definition matching :: "Factor list \<Rightarrow> string \<Rightarrow> Scope \<Rightarrow> Factor list" where
  "matching factorPack r sc = filter (\<lambda>factor. region factor = r \<and> scope factor = sc) factorPack"

definition candidatesFor :: "Factor list \<Rightarrow> string \<Rightarrow> Scope \<Rightarrow> Factor list" where
  "candidatesFor factorPack normalizedRegion sc =
     (let candidates = matching factorPack normalizedRegion sc
      in if candidates = [] \<and> normalizedRegion \<noteq> ''WORLD''
         then matching factorPack ''WORLD'' sc
         else candidates)"

text \<open>The predicate of the date filter. An absent or empty \<^verbatim>\<open>effectiveTo\<close> is falsy, and
  the end of the range is then the date \<^verbatim>\<open>2099-12-31\<close>.\<close>

definition inEffectiveRange :: "runtime \<Rightarrow> int option \<Rightarrow> Factor \<Rightarrow> bool" where
  "inEffectiveRange rt targetDate factor =
     (let fromDate = Date_parse rt (effectiveFrom factor);
          toDate = (case effectiveTo factor of
                      Some s \<Rightarrow> (if s \<noteq> [] then Date_parse rt s
                                 else Date_parse rt ''2099-12-31'')
                    | None \<Rightarrow> Date_parse rt ''2099-12-31'')
      in date_ge targetDate fromDate \<and> date_le targetDate toDate)"

text \<open>The sort is stable and orders by \<^verbatim>\<open>effectiveFrom\<close>, latest first. Every factor that
  reaches it has passed the date filter, so its \<^verbatim>\<open>effectiveFrom\<close> is a valid date.\<close>

definition fromTime :: "runtime \<Rightarrow> Factor \<Rightarrow> int" where
  "fromTime rt factor =
     (case Date_parse rt (effectiveFrom factor) of Some t \<Rightarrow> t | None \<Rightarrow> 0)"

definition resolveFactor ::
  "runtime \<Rightarrow> registry \<Rightarrow> FactorResolutionOptions \<Rightarrow> error + Factor" where
  "resolveFactor rt st options =
     (let region' = (case opt_region options of Some r \<Rightarrow> r | None \<Rightarrow> ''WORLD'');
          scope' = (case opt_scope options of Some s \<Rightarrow> s | None \<Rightarrow> baseline);
          factorPack = (case opt_overrides options of
                          Some ov \<Rightarrow> ov | None \<Rightarrow> defaultFactorPack st)
      in if factorPack = [] then Inl RegistryUninitialized
         else let normalizedRegion = normalizeRegionCode rt st region';
                  candidates = candidatesFor factorPack normalizedRegion scope'
              in if candidates = [] then Inl (UnknownRegionError region')
                 else (case opt_date options of
                         None \<Rightarrow> Inr (hd candidates)
                       | Some date \<Rightarrow>
                           if date = [] then Inr (hd candidates)
                           else let targetDate = Date_parse rt date;
                                    dated = filter (inEffectiveRange rt targetDate) candidates
                                in if dated = [] then Inl (NoFactorForDateError region' date)
                                   else Inr (hd (sort_key (\<lambda>f. - fromTime rt f) dated))))"

text \<open>The factor pack and the region pack that the library loads at start-up.\<close>

definition WORLD_DEFAULT_2024 :: Factor where
  "WORLD_DEFAULT_2024 =
     \<lparr>factor_id = ''WORLD-DEFAULT-2024'', region = ''WORLD'', scope = baseline,
       valueKgPerKWh = round_double (82 / 100), effectiveFrom = ''2024-01-01'',
       effectiveTo = None\<rparr>"

definition IN_2024_BASELINE :: Factor where
  "IN_2024_BASELINE =
     \<lparr>factor_id = ''IN-2024-BASELINE'', region = ''IN'', scope = baseline,
       valueKgPerKWh = round_double (708 / 1000), effectiveFrom = ''2024-01-01'',
       effectiveTo = None\<rparr>"

definition US_2024_BASELINE :: Factor where
  "US_2024_BASELINE =
     \<lparr>factor_id = ''US-2024-BASELINE'', region = ''US'', scope = baseline,
       valueKgPerKWh = round_double (386 / 1000), effectiveFrom = ''2024-01-01'',
       effectiveTo = None\<rparr>"

definition EU_2024_BASELINE :: Factor where
  "EU_2024_BASELINE =
     \<lparr>factor_id = ''EU-2024-BASELINE'', region = ''EU'', scope = baseline,
       valueKgPerKWh = round_double (255 / 1000), effectiveFrom = ''2024-01-01'',
       effectiveTo = None\<rparr>"

definition defaultFactors :: "Factor list" where
  "defaultFactors = [WORLD_DEFAULT_2024, IN_2024_BASELINE, US_2024_BASELINE, EU_2024_BASELINE]"

definition defaultRegions :: "RegionMapping list" where
  "defaultRegions =
     [\<lparr>code = ''WORLD'', name = ''World'', iso2 = None, iso3 = None, unM49 = None\<rparr>,
      \<lparr>code = ''IN'', name = ''India'', iso2 = Some ''IN'', iso3 = Some ''IND'',
        unM49 = Some ''356''\<rparr>,
      \<lparr>code = ''US'', name = ''United States'', iso2 = Some ''US'', iso3 = Some ''USA'',
        unM49 = Some ''840''\<rparr>,
      \<lparr>code = ''EU'', name = ''European Union'', iso2 = None, iso3 = None, unM49 = None\<rparr>]"

definition defaultRegistry :: registry where
  "defaultRegistry = \<lparr>defaultFactorPack = defaultFactors, regionMappings = defaultRegions\<rparr>"

text \<open>The registry before any load: both variables start as the empty array.\<close>

definition initialRegistry :: registry where
  "initialRegistry = \<lparr>defaultFactorPack = [], regionMappings = []\<rparr>"

section \<open>Canonical serialization (util/hash)\<close>

text \<open>The structured values that \<^verbatim>\<open>stableStringify\<close> is given: the scalars, arrays, and
  objects as the list of their own properties in insertion order (a well-formed object has
  no key twice).\<close>

datatype jsvalue =
    JNull
  | JBool bool
  | JNumber number
  | JString string
  | JArray "jsvalue list"
  | JObject "(string \<times> jsvalue) list"

text \<open>
  The order in which \<^verbatim>\<open>Object.keys\<close> and \<^verbatim>\<open>JSON.stringify\<close> visit the properties of an
  object: first the keys that are array indices (the decimal numerals below \<open>2^32 - 1\<close>
  without a leading zero) in ascending numeric order, then the other keys in insertion
  order.
\<close>

definition is_array_index :: "string \<Rightarrow> bool" where
  "is_array_index s =
     (case digits_val s of
        None \<Rightarrow> False
      | Some n \<Rightarrow> (s = ''0'' \<or> hd s \<noteq> CHR ''0'') \<and> int n < 4294967295)"

definition index_val :: "string \<Rightarrow> nat" where
  "index_val s = (case digits_val s of Some n \<Rightarrow> n | None \<Rightarrow> 0)"

definition own_properties :: "(string \<times> 'a) list \<Rightarrow> (string \<times> 'a) list" where
  "own_properties ps =
     sort_key (\<lambda>p. index_val (fst p)) (filter (\<lambda>p. is_array_index (fst p)) ps)
     @ filter (\<lambda>p. \<not> is_array_index (fst p)) ps"

definition Object_keys :: "(string \<times> 'a) list \<Rightarrow> string list" where
  "Object_keys ps = map fst (own_properties ps)"

text \<open>\<^verbatim>\<open>obj[key]\<close>; every key that is looked up below is a key of the object. The key
  \<^verbatim>\<open>__proto__\<close>, whose assignment sets the prototype of the new object, is outside the
  model.\<close>

definition get_prop :: "(string \<times> jsvalue) list \<Rightarrow> string \<Rightarrow> jsvalue" where
  "get_prop ps key = (case map_of ps key of Some v \<Rightarrow> v | None \<Rightarrow> JNull)"

text \<open>\<^verbatim>\<open>s.replace(/0+$/, '')\<close>.\<close>

definition strip_trailing_zeros :: "string \<Rightarrow> string" where
  "strip_trailing_zeros s = rev (dropWhile (\<lambda>c. c = CHR ''0'') (rev s))"

definition formatNumber :: "runtime \<Rightarrow> number \<Rightarrow> int \<Rightarrow> number" where
  "formatNumber rt num maxDecimals =
     (if \<not> isFinite num then num
      else let factor = Math_pow10 maxDecimals;
               rounded = jdiv (Math_round (jmul num factor)) factor;
               str = Number_toString rt rounded;
               parts = split_on CHR ''.'' str
           in if length parts = 1 then rounded
              else let trimmedDecimal = strip_trailing_zeros (parts ! 1)
                   in if trimmedDecimal = [] then parseFloat rt (parts ! 0)
                      else parseFloat rt (parts ! 0 @ ''.'' @ trimmedDecimal))"

function normalizeObject :: "runtime \<Rightarrow> int \<Rightarrow> jsvalue \<Rightarrow> jsvalue" where
  "normalizeObject rt maxDecimals (JNumber n) = JNumber (formatNumber rt n maxDecimals)"
| "normalizeObject rt maxDecimals (JArray xs) = JArray (map (normalizeObject rt maxDecimals) xs)"
| "normalizeObject rt maxDecimals (JObject ps) =
     JObject (map (\<lambda>key. (key, normalizeObject rt maxDecimals (get_prop ps key)))
                (sort (Object_keys ps)))"
| "normalizeObject rt maxDecimals JNull = JNull"
| "normalizeObject rt maxDecimals (JBool b) = JBool b"
| "normalizeObject rt maxDecimals (JString s) = JString s"
  by pat_completeness auto
termination
proof (relation "measure (\<lambda>(rt, d, v). size v)")
  show "wf (measure (\<lambda>(rt :: runtime, d :: int, v :: jsvalue). size v))" by simp
next
  fix rt :: runtime and maxDecimals :: int and xs :: "jsvalue list" and x
  assume "x \<in> set xs"
  then have "size x < Suc (size_list size xs)"
    by (induction xs) auto
  then show "((rt, maxDecimals, x), rt, maxDecimals, JArray xs) \<in> measure (\<lambda>(rt, d, v). size v)"
    by simp
next
  fix rt :: runtime and maxDecimals :: int and ps :: "(string \<times> jsvalue) list" and key
  have "size (get_prop ps key) < Suc (size_list (size_prod (\<lambda>_. 0) size) ps)"
    by (induction ps) (auto simp: get_prop_def)
  then show "((rt, maxDecimals, get_prop ps key), rt, maxDecimals, JObject ps)
               \<in> measure (\<lambda>(rt, d, v). size v)"
    by simp
qed

fun join_comma :: "string list \<Rightarrow> string" where
  "join_comma [] = []"
| "join_comma [s] = s"
| "join_comma (s # t # ts) = s @ '','' @ join_comma (t # ts)"

text \<open>\<^verbatim>\<open>JSON.stringify\<close> without indentation. A number that is not finite is written
  \<^verbatim>\<open>null\<close>.\<close>

fun JSON_stringify :: "runtime \<Rightarrow> jsvalue \<Rightarrow> string" where
  "JSON_stringify rt JNull = ''null''"
| "JSON_stringify rt (JBool b) = (if b then ''true'' else ''false'')"
| "JSON_stringify rt (JNumber n) = (if isFinite n then Number_toString rt n else ''null'')"
| "JSON_stringify rt (JString s) = JSON_quote rt s"
| "JSON_stringify rt (JArray xs) = ''['' @ join_comma (map (JSON_stringify rt) xs) @ '']''"
| "JSON_stringify rt (JObject ps) =
     ''{'' @ join_comma (map (\<lambda>(k, t). JSON_quote rt k @ '':'' @ t)
                          (own_properties (map (\<lambda>(k, v). (k, JSON_stringify rt v)) ps)))
          @ ''}''"

definition stableStringify :: "runtime \<Rightarrow> jsvalue \<Rightarrow> int \<Rightarrow> string" where
  "stableStringify rt obj maxDecimals = JSON_stringify rt (normalizeObject rt maxDecimals obj)"

text \<open>
  Two values are the same up to the order of keys: equal scalars, arrays that agree
  position by position, and objects of which the second lists the properties of the first
  in some other order, the values again the same up to the order of keys.
\<close>

inductive same_up_to_key_order :: "jsvalue \<Rightarrow> jsvalue \<Rightarrow> bool" where
  "same_up_to_key_order JNull JNull"
| "same_up_to_key_order (JBool b) (JBool b)"
| "same_up_to_key_order (JNumber n) (JNumber n)"
| "same_up_to_key_order (JString s) (JString s)"
| "list_all2 same_up_to_key_order xs ys \<Longrightarrow> same_up_to_key_order (JArray xs) (JArray ys)"
| "distinct (map fst ps) \<Longrightarrow> mset qs = mset qs' \<Longrightarrow>
   list_all2 (\<lambda>p q. fst p = fst q \<and> same_up_to_key_order (snd p) (snd q)) ps qs' \<Longrightarrow>
   same_up_to_key_order (JObject ps) (JObject qs)"

section \<open>Definitions used in the statements\<close>

text \<open>Rounding to the nearest integer with a tie away from zero, in the words of the
  documentation of \<^verbatim>\<open>HALF_UP\<close>.\<close>

definition round_half_away_from_zero :: "real \<Rightarrow> int" where
  "round_half_away_from_zero q = (if q < 0 then - \<lfloor>- q + 1 / 2\<rfloor> else \<lfloor>q + 1 / 2\<rfloor>)"

text \<open>The integer that a mode selects for a scaled value.\<close>

definition rounded_int :: "RoundingMode \<Rightarrow> real \<Rightarrow> int" where
  "rounded_int m q =
     (case m of HALF_UP \<Rightarrow> \<lfloor>q + 1 / 2\<rfloor> | DOWN \<Rightarrow> \<lfloor>q\<rfloor>
              | TRUNC \<Rightarrow> (if q < 0 then \<lceil>q\<rceil> else \<lfloor>q\<rfloor>))"

text \<open>An input of 1 kWh with the factor 0.0004 kg/kWh and no rounding of its own, for
  \<^verbatim>\<open>avoidedEmissions\<close> and for \<^verbatim>\<open>toCO2eTonnes\<close>.\<close>

definition tiny_item :: AvoidedInput where
  "tiny_item = \<lparr>energy = Num 1, inputUnit = kWh, factorKgPerKWh = round_double (4 / 10000),
                 rounding = None\<rparr>"

definition tiny_conversion :: ConversionInput where
  "tiny_conversion = \<lparr>ci_energy = Num 1, ci_unit = kWh,
                       ci_factorKgPerKWh = round_double (4 / 10000)\<rparr>"

text \<open>The order in which the keys \<open>ks\<close> of an object are visited, as a function of the
  order of their insertion (\<open>own_properties\<close> on the keys alone).\<close>

definition visiting_order :: "string list \<Rightarrow> string list" where
  "visiting_order ks =
     sort_key index_val (filter is_array_index ks) @ filter (\<lambda>k. \<not> is_array_index k) ks"

text \<open>A runtime for the statements that name no variable. Each evaluation that is stated
  with it is first proved for every runtime, and reaches none of its fields.\<close>

definition bare_runtime :: runtime where
  "bare_runtime =
     \<lparr>Number_toString = (\<lambda>x. []), parseFloat = (\<lambda>s. NaN), JSON_quote = (\<lambda>s. s),
       String_toUpperCase = (\<lambda>s. s), Date_parse_string = (\<lambda>s. None)\<rparr>"

text \<open>The two objects of the test of nested key order:
  \<^verbatim>\<open>{a: {x: 1, y: 2}, b: 3}\<close> and \<^verbatim>\<open>{b: 3, a: {y: 2, x: 1}}\<close>.\<close>

definition nested_ab :: jsvalue where
  "nested_ab = JObject [(''a'', JObject [(''x'', JNumber (Num 1)), (''y'', JNumber (Num 2))]),
                        (''b'', JNumber (Num 3))]"

definition nested_ba :: jsvalue where
  "nested_ba = JObject [(''b'', JNumber (Num 3)),
                        (''a'', JObject [(''y'', JNumber (Num 2)), (''x'', JNumber (Num 1))])]"

section \<open>Properties of the number model\<close>

subsection \<open>Powers of two and binades\<close>

lemma pow2_pos: "0 < pow2 e"
  by (simp add: pow2_def)

lemma pow2_add: "pow2 (a + b) = pow2 a * pow2 b"
  by (simp add: pow2_def power_int_add)

lemma pow2_mono: "a \<le> b \<Longrightarrow> pow2 a \<le> pow2 b"
  by (simp add: pow2_def power_int_increasing)

lemma pow2_strict_mono: "a < b \<Longrightarrow> pow2 a < pow2 b"
  by (simp add: pow2_def power_int_strict_increasing)

lemma pow2_less_iff: "pow2 a < pow2 b \<longleftrightarrow> a < b"
proof
  assume "pow2 a < pow2 b"
  then show "a < b" using pow2_mono [of b a] by (cases "a < b") auto
qed (rule pow2_strict_mono)

lemma pow2_le_iff: "pow2 a \<le> pow2 b \<longleftrightarrow> a \<le> b"
proof
  assume "pow2 a \<le> pow2 b"
  then show "a \<le> b" using pow2_strict_mono [of b a] by (cases "a \<le> b") auto
qed (rule pow2_mono)

lemma pow2_0: "pow2 0 = 1" and pow2_1: "pow2 1 = 2" and pow2_m1: "pow2 (- 1) = 1 / 2"
  by (simp_all add: pow2_def power_int_minus inverse_eq_divide)

lemma log2_up_bounds:
  "1 \<le> a \<Longrightarrow> 0 \<le> log2_up a \<and> pow2 (log2_up a) \<le> a \<and> a < pow2 (log2_up a + 1)"
proof (induction a rule: log2_up.induct)
  case (1 a)
  show ?case
  proof (cases "a < 2")
    case True
    with "1.prems" show ?thesis
      by (simp add: log2_up.simps [of a] pow2_0 pow2_1)
  next
    case False
    then have "1 \<le> a / 2" by simp
    with "1.IH" False
    have ih: "0 \<le> log2_up (a / 2)" "pow2 (log2_up (a / 2)) \<le> a / 2"
      "a / 2 < pow2 (log2_up (a / 2) + 1)" by auto
    have eq: "log2_up a = 1 + log2_up (a / 2)"
      using False by (simp add: log2_up.simps [of a])
    have "pow2 (1 + log2_up (a / 2)) = 2 * pow2 (log2_up (a / 2))"
      using pow2_add [of 1 "log2_up (a / 2)"] by (simp add: pow2_1)
    moreover have "pow2 (1 + log2_up (a / 2) + 1) = 2 * pow2 (log2_up (a / 2) + 1)"
      using pow2_add [of 1 "log2_up (a / 2) + 1"] by (simp add: pow2_1 add.assoc)
    ultimately show ?thesis
      using ih eq by simp
  qed
qed

lemma log2_down_bounds:
  "0 < a \<Longrightarrow> a < 1 \<Longrightarrow>
     log2_down a < 0 \<and> pow2 (log2_down a) \<le> a \<and> a < pow2 (log2_down a + 1)"
proof (induction a rule: log2_down.induct)
  case (1 a)
  from "1.prems" have eq: "log2_down a = log2_down (2 * a) - 1"
    by (simp add: log2_down.simps [of a])
  show ?case
  proof (cases "1 \<le> 2 * a")
    case True
    then have "log2_down (2 * a) = 0"
      by (simp add: log2_down.simps [of "2 * a"])
    with eq have "log2_down a = - 1" by simp
    with True "1.prems" show ?thesis
      by (simp add: pow2_0 pow2_m1)
  next
    case False
    with "1.IH" "1.prems"
    have ih: "log2_down (2 * a) < 0" "pow2 (log2_down (2 * a)) \<le> 2 * a"
      "2 * a < pow2 (log2_down (2 * a) + 1)" by auto
    have "pow2 (log2_down (2 * a)) = 2 * pow2 (log2_down (2 * a) - 1)"
      using pow2_add [of 1 "log2_down (2 * a) - 1"] by (simp add: pow2_1)
    moreover have "pow2 (log2_down (2 * a) + 1) = 2 * pow2 (log2_down (2 * a))"
      using pow2_add [of 1 "log2_down (2 * a)"] by (simp add: pow2_1 add.commute)
    ultimately show ?thesis
      using ih eq by simp
  qed
qed

lemma binade_bounds:
  assumes "0 < a"
  shows "pow2 (binade a) \<le> a \<and> a < pow2 (binade a + 1)"
proof (cases "1 \<le> a")
  case True
  then show ?thesis using log2_up_bounds [of a] by (simp add: binade_def)
next
  case False
  then show ?thesis using log2_down_bounds [of a] assms by (simp add: binade_def)
qed

lemma binade_unique:
  assumes "pow2 e \<le> a" and "a < pow2 (e + 1)"
  shows "binade a = e"
proof -
  have pos: "0 < a" using assms(1) pow2_pos [of e] by linarith
  from binade_bounds [OF pos]
  have b: "pow2 (binade a) \<le> a" "a < pow2 (binade a + 1)" by auto
  have "pow2 (binade a) < pow2 (e + 1)" using b(1) assms(2) by linarith
  then have "binade a < e + 1" by (simp add: pow2_less_iff)
  moreover have "pow2 e < pow2 (binade a + 1)" using b(2) assms(1) by linarith
  then have "e < binade a + 1" by (simp add: pow2_less_iff)
  ultimately show ?thesis by linarith
qed

subsection \<open>Rounding to a double\<close>

lemma round_half_even_of_int: "round_half_even (of_int j) = j"
  by (simp add: round_half_even_def)

text \<open>A certificate for one rounding: the binade \<open>e\<close> of the argument and the rounded
  significand \<open>n\<close>.\<close>

lemma round_double_cert:
  assumes "pow2 e \<le> a" and "a < pow2 (e + 1)" and "- 1022 \<le> e"
    and "round_half_even (a / pow2 (e - 52)) = n"
    and "of_int n * pow2 (e - 52) < pow2 1024"
  shows "round_double a = Num (of_int n * pow2 (e - 52))"
    and "round_double (- a) = Num (- (of_int n * pow2 (e - 52)))"
proof -
  have pos: "0 < a" using assms(1) pow2_pos [of e] by linarith
  have b: "binade a = e" using assms(1,2) by (rule binade_unique)
  have m: "max e (- 1022) = e" using assms(3) by simp
  show "round_double a = Num (of_int n * pow2 (e - 52))"
    using pos assms(4,5) by (simp add: round_double_def Let_def b m)
  show "round_double (- a) = Num (- (of_int n * pow2 (e - 52)))"
    using pos assms(4,5) by (simp add: round_double_def Let_def b m)
qed

text \<open>A number with a significand below \<open>2^53\<close> and an exponent in range is a double.\<close>

lemma round_double_exact:
  assumes "\<bar>m\<bar> < 2 ^ 53" and "- 1074 \<le> e" and "e \<le> 971"
  shows "round_double (of_int m * pow2 e) = Num (of_int m * pow2 e)"
proof (cases "m = 0")
  case True
  then show ?thesis by (simp add: round_double_def)
next
  case False
  define a where "a = \<bar>of_int m * pow2 e\<bar>"
  have a_eq: "a = of_int \<bar>m\<bar> * pow2 e"
    using pow2_pos [of e] by (simp add: a_def abs_mult)
  have pos: "0 < a" using False pow2_pos [of e] by (simp add: a_eq)
  define E where "E = max (binade a) (- 1022)"
  have "of_int \<bar>m\<bar> < (2 ^ 53 :: real)"
    using assms(1) by (metis of_int_less_iff of_int_numeral of_int_power)
  then have "a < 2 ^ 53 * pow2 e"
    using pow2_pos [of e] by (simp add: a_eq)
  also have "\<dots> = pow2 (53 + e)"
    by (simp add: pow2_add) (simp add: pow2_def)
  finally have ub: "a < pow2 (53 + e)" .
  have "pow2 (binade a) < pow2 (53 + e)"
    using binade_bounds [OF pos] ub by linarith
  then have "binade a < 53 + e" by (simp add: pow2_less_iff)
  with assms(2) have Ee: "E - 52 \<le> e" by (simp add: E_def)
  define k where "k = nat (e - (E - 52))"
  have "pow2 e = pow2 (int k) * pow2 (E - 52)"
    using Ee pow2_add [of "int k" "E - 52"] by (simp add: k_def)
  moreover have "pow2 (int k) = of_int (2 ^ k)"
    by (simp add: pow2_def)
  ultimately have pe: "pow2 e = of_int (2 ^ k) * pow2 (E - 52)" by simp
  have "a / pow2 (E - 52) = of_int (\<bar>m\<bar> * 2 ^ k)"
    using pow2_pos [of "E - 52"] by (simp add: a_eq pe)
  then have r: "of_int (round_half_even (a / pow2 (E - 52))) * pow2 (E - 52) = a"
    by (simp only: round_half_even_of_int) (simp add: a_eq pe)
  have "pow2 (53 + e) \<le> pow2 1024" using assms(3) by (simp add: pow2_le_iff)
  with ub have nov: "\<not> pow2 1024 \<le> a" by linarith
  have "round_double (of_int m * pow2 e) =
      Num (if of_int m * pow2 e < 0 then - a else a)"
    using False pow2_pos [of e] r nov
    by (simp add: round_double_def Let_def a_def [symmetric] E_def [symmetric])
  also have "(if of_int m * pow2 e < 0 then - a else a) = of_int m * pow2 e"
    by (simp add: a_def)
  finally show ?thesis .
qed

lemma round_double_int:
  assumes "\<bar>k\<bar> < 2 ^ 53"
  shows "round_double (of_int k) = Num (of_int k)"
  using round_double_exact [OF assms, of 0] by (simp add: pow2_0)

lemma Math_pow10_0: "Math_pow10 0 = Num 1"
  using round_double_int [of 1] by (simp add: Math_pow10_def)

lemma Math_pow10_2: "Math_pow10 2 = Num 100"
  using round_double_int [of 100] by (simp add: Math_pow10_def)

lemma Math_pow10_6: "Math_pow10 6 = Num 1000000"
  using round_double_int [of 1000000] by (simp add: Math_pow10_def)

lemmas cert_simps = pow2_def round_half_even_def Let_def

lemma round_double_0: "round_double 0 = Num 0"
  by (simp add: round_double_def)

section \<open>Rounding\<close>

subsection \<open>A tie below zero\<close>

text \<open>
  Claim C1 says that \<open>roundStable\<close> scales by \<open>10^d\<close>, applies the rule of the mode and
  rescales (\<open>roundStable_value\<close> below), that a number that is not finite is returned as it
  is (\<open>roundStable_non_finite\<close> below), and that \<open>HALF_UP\<close> rounds a tie away from zero.
  The last part fails on the code: \<^verbatim>\<open>Math.round\<close> rounds a tie towards \<open>+\<infinity>\<close>, so
  \<open>roundStable(-2.5, 0, HALF_UP)\<close> is \<open>-2\<close>, where rounding the tie away from zero gives
  \<open>-3\<close>. All the numbers of this computation are doubles, no rounding error is involved.
\<close>

theorem roundStable_HALF_UP_tie_below_zero:
  "roundStable (Num (- 5 / 2)) 0 HALF_UP = Num (- 2) \<and>
   round_half_away_from_zero (- 5 / 2) = - 3"
  using round_double_exact [of "- 5" "- 1"] round_double_int [of "- 2"]
  by (simp add: roundStable_def isFinite_def Let_def Math_pow10_0 pow2_m1
        round_half_away_from_zero_def)

subsection \<open>Integers are doubles\<close>

lemma double_non_integer_small:
  assumes "round_double q = Num q" and "q \<notin> \<int>"
  shows "\<bar>q\<bar> < 2 ^ 52"
proof -
  from assms(2) have q0: "q \<noteq> 0" by auto
  define a where "a = \<bar>q\<bar>"
  define E where "E = max (binade a) (- 1022)"
  define n where "n = round_half_even (a / pow2 (E - 52))"
  have pos: "0 < a" using q0 by (simp add: a_def)
  have rd: "round_double q =
      (if pow2 1024 \<le> of_int n * pow2 (E - 52) then (if q < 0 then NegInf else PosInf)
       else Num (if q < 0 then - (of_int n * pow2 (E - 52)) else of_int n * pow2 (E - 52)))"
    using q0 by (simp add: round_double_def Let_def a_def E_def n_def)
  have m: "of_int n * pow2 (E - 52) = a"
    using assms(1) unfolding rd a_def by (auto split: if_splits)
  have "E < 52"
  proof (rule ccontr)
    assume "\<not> E < 52"
    then have "pow2 (E - 52) = of_int (2 ^ nat (E - 52))"
      by (simp add: pow2_def power_int_def)
    with m have "a = of_int (n * 2 ^ nat (E - 52))" by simp
    then have "a \<in> \<int>" by (metis Ints_of_int)
    then have "q \<in> \<int>" unfolding a_def by (metis Ints_abs Ints_minus abs_idempotent abs_if minus_minus)
    with assms(2) show False by simp
  qed
  then have "binade a + 1 \<le> 52" by (simp add: E_def)
  then have "pow2 (binade a + 1) \<le> pow2 52" by (simp add: pow2_le_iff)
  moreover have "a < pow2 (binade a + 1)" using binade_bounds [OF pos] by simp
  moreover have "pow2 52 = 2 ^ 52" by (simp add: pow2_def)
  ultimately show ?thesis by (simp add: a_def)
qed

lemma rounded_int_is_double:
  assumes "round_double q = Num q"
    and "k = \<lfloor>q\<rfloor> \<or> k = \<lceil>q\<rceil> \<or> k = \<lfloor>q + 1 / 2\<rfloor>"
  shows "round_double (of_int k) = Num (of_int k)"
proof (cases "q \<in> \<int>")
  case True
  then obtain j where j: "q = of_int j" by (auto elim: Ints_cases)
  have "\<lfloor>of_int j + (1 / 2 :: real)\<rfloor> = j" by linarith
  with assms(2) j have "k = j" by auto
  with assms(1) j show ?thesis by simp
next
  case False
  from double_non_integer_small [OF assms(1) False]
  have b: "- (2 ^ 52) < q" "q < 2 ^ 52" by (auto simp: abs_less_iff)
  have "- (2 ^ 52) \<le> k \<and> k \<le> 2 ^ 52"
    using assms(2) b by (auto; linarith)
  then have "\<bar>k\<bar> < 2 ^ 53" by (simp add: abs_less_iff)
  then show ?thesis by (rule round_double_int)
qed

lemma rounded_int_of_int: "rounded_int m (of_int k) = k"
proof -
  have "\<lfloor>of_int k + (1 / 2 :: real)\<rfloor> = k" by linarith
  then show ?thesis by (cases m) (simp_all add: rounded_int_def)
qed

text \<open>With no decimals the scaling factor is 1, and each mode returns an integer.\<close>

lemma roundStable_0:
  assumes "round_double q = Num q"
  shows "roundStable (Num q) 0 m = Num (of_int (rounded_int m q))"
proof -
  have "rounded_int m q = \<lfloor>q\<rfloor> \<or> rounded_int m q = \<lceil>q\<rceil> \<or> rounded_int m q = \<lfloor>q + 1 / 2\<rfloor>"
    by (cases m) (simp_all add: rounded_int_def)
  with assms have "round_double (of_int (rounded_int m q)) = Num (of_int (rounded_int m q))"
    by (rule rounded_int_is_double)
  with assms show ?thesis
    by (cases m) (simp_all add: roundStable_def isFinite_def Let_def Math_pow10_0 rounded_int_def)
qed

lemma roundStable_idempotent_no_decimals:
  assumes "is_double x" and "isFinite x"
  shows "roundStable (roundStable x 0 m) 0 m = roundStable x 0 m"
proof -
  from assms(2) obtain q where x: "x = Num q" by (cases x) (simp_all add: isFinite_def)
  with assms(1) have q: "round_double q = Num q" by (simp add: is_double_def)
  define k where "k = rounded_int m q"
  have 1: "roundStable (Num q) 0 m = Num (of_int k)"
    using roundStable_0 [OF q] by (simp add: k_def)
  have "rounded_int m q = \<lfloor>q\<rfloor> \<or> rounded_int m q = \<lceil>q\<rceil> \<or> rounded_int m q = \<lfloor>q + 1 / 2\<rfloor>"
    by (cases m) (simp_all add: rounded_int_def)
  with q have "round_double (of_int k) = Num (of_int k)"
    unfolding k_def by (rule rounded_int_is_double)
  then have "roundStable (Num (of_int k)) 0 m = Num (of_int (rounded_int m (of_int k)))"
    by (rule roundStable_0)
  then show ?thesis by (simp add: x 1 rounded_int_of_int)
qed


subsection \<open>The error of one rounding\<close>

lemma round_half_even_error: "\<bar>of_int (round_half_even t) - t\<bar> \<le> 1 / 2"
  unfolding round_half_even_def Let_def by (auto simp: abs_le_iff; linarith)

text \<open>In the normal range one rounding has a relative error of at most \<open>2^-53\<close>.\<close>

lemma round_double_error:
  assumes lo: "pow2 (- 1022) \<le> \<bar>a\<bar>" and hi: "\<bar>a\<bar> < pow2 1023"
  shows "\<exists>a'. round_double a = Num a' \<and> \<bar>a' - a\<bar> \<le> \<bar>a\<bar> / 2 ^ 53"
proof -
  define A where "A = \<bar>a\<bar>"
  have pos: "0 < A" using lo pow2_pos [of "- 1022"] by (simp add: A_def)
  then have a0: "a \<noteq> 0" by (auto simp: A_def)
  define b where "b = binade A"
  have bb: "pow2 b \<le> A" "A < pow2 (b + 1)"
    using binade_bounds [OF pos] by (simp_all add: b_def)
  have "pow2 (- 1022) < pow2 (b + 1)" using lo bb(2) by (simp add: A_def)
  then have bl: "- 1022 \<le> b" by (simp add: pow2_less_iff)
  then have E: "max b (- 1022) = b" by simp
  define u where "u = pow2 (b - 52)"
  define n where "n = round_half_even (A / u)"
  have upos: "0 < u" by (simp add: u_def pow2_pos)
  have "\<bar>of_int n - A / u\<bar> \<le> 1 / 2"
    unfolding n_def by (rule round_half_even_error)
  then have "\<bar>of_int n - A / u\<bar> * u \<le> 1 / 2 * u"
    using upos by (intro mult_right_mono) simp_all
  moreover have "of_int n * u - A = (of_int n - A / u) * u"
    using upos by (simp add: left_diff_distrib)
  then have "\<bar>of_int n - A / u\<bar> * u = \<bar>of_int n * u - A\<bar>"
    using upos by (simp add: abs_mult)
  ultimately have e1: "\<bar>of_int n * u - A\<bar> \<le> u / 2" by simp
  have "pow2 b = pow2 (b - 52) * pow2 52" using pow2_add [of "b - 52" 52] by simp
  moreover have "pow2 52 = 2 ^ 52" by (simp add: pow2_def)
  ultimately have "u / 2 = pow2 b / 2 ^ 53" by (simp add: u_def)
  also have "\<dots> \<le> A / 2 ^ 53" using bb(1) by (simp add: divide_right_mono)
  finally have e2: "u / 2 \<le> A / 2 ^ 53" .
  with e1 have err: "\<bar>of_int n * u - A\<bar> \<le> A / 2 ^ 53" by linarith
  have "A / 2 ^ 53 \<le> A / 1" using pos by (intro divide_left_mono) simp_all
  moreover have "of_int n * u - A \<le> \<bar>of_int n * u - A\<bar>" by simp
  ultimately have "of_int n * u \<le> 2 * A" using err by simp
  also have "\<dots> < 2 * pow2 1023" using hi by (simp add: A_def)
  also have "\<dots> = pow2 1024" using pow2_add [of 1 1023] by (simp add: pow2_1)
  finally have nov: "\<not> pow2 1024 \<le> of_int n * u" by simp
  have rd: "round_double a = Num (if a < 0 then - (of_int n * u) else of_int n * u)"
    using a0 nov
    by (simp add: round_double_def Let_def A_def [symmetric] b_def [symmetric] E
          u_def [symmetric] n_def [symmetric])
  have "\<bar>(if a < 0 then - (of_int n * u) else of_int n * u) - a\<bar> = \<bar>of_int n * u - A\<bar>"
    by (auto simp: A_def)
  with err rd show ?thesis by (auto simp: A_def)
qed

lemma Math_pow10_exact:
  assumes "0 \<le> d" and "d \<le> 22"
  shows "Math_pow10 d = Num (10 ^ nat d)"
proof -
  have "(5::int) ^ nat d \<le> 5 ^ 22"
    using assms by (intro power_increasing) simp_all
  then have "\<bar>(5::int) ^ nat d\<bar> < 2 ^ 53" by simp
  then have "round_double (of_int (5 ^ nat d) * pow2 d) = Num (of_int (5 ^ nat d) * pow2 d)"
    using assms by (intro round_double_exact) simp_all
  moreover have "pow2 d = 2 ^ nat d" using assms by (simp add: pow2_def power_int_def)
  moreover have "(10::real) ^ nat d = 5 ^ nat d * 2 ^ nat d"
    by (simp flip: power_mult_distrib)
  moreover have "power_int (10::real) d = 10 ^ nat d" using assms by (simp add: power_int_def)
  ultimately show ?thesis by (simp add: Math_pow10_def)
qed

text \<open>The double nearest to \<open>r / 10^d\<close> is a fixed point of \<open>HALF_UP\<close> rounding to \<open>d\<close>
  decimals.\<close>

lemma half_up_fixed_point:
  assumes d: "0 \<le> d" "d \<le> 22" and r: "\<bar>r\<bar> \<le> 2 ^ 50"
  shows "roundStable (round_double (of_int r / 10 ^ nat d)) d HALF_UP
           = round_double (of_int r / 10 ^ nat d)"
proof (cases "r = 0")
  case True
  have z: "round_double 0 = Num 0" by (simp add: round_double_def)
  show ?thesis
    using True z by (simp add: roundStable_def isFinite_def Let_def Math_pow10_exact [OF d])
next
  case False
  define f :: real where "f = 10 ^ nat d"
  define R :: real where "R = \<bar>of_int r\<bar>"
  have f1: "1 \<le> f" by (simp add: f_def)
  have "f \<le> 10 ^ 22" unfolding f_def using d by (intro power_increasing) simp_all
  then have f2: "f \<le> 2 ^ 74" by simp
  have fpos: "0 < f" using f1 by simp
  have "(1::int) \<le> \<bar>r\<bar>" using False by simp
  then have "(1::real) \<le> of_int \<bar>r\<bar>" by (metis of_int_1 of_int_le_iff)
  then have R1: "1 \<le> R" by (simp add: R_def)
  have "of_int \<bar>r\<bar> \<le> (2 ^ 50 :: real)" using r by (metis of_int_le_iff of_int_numeral of_int_power)
  then have R2: "R \<le> 2 ^ 50" by (simp add: R_def)
  have tiny: "pow2 (- 1022) \<le> 1 / 2 ^ 74"
  proof -
    have "pow2 (- 1022) \<le> pow2 (- 74)" by (simp add: pow2_le_iff)
    also have "\<dots> = 1 / 2 ^ 74" by (simp add: pow2_def power_int_minus_divide)
    finally show ?thesis .
  qed
  have big: "(2 ^ 51 :: real) < pow2 1023"
  proof -
    have "pow2 51 < pow2 1023" by (simp add: pow2_less_iff)
    then show ?thesis by (simp add: pow2_def)
  qed
  \<comment> \<open>first rounding: \<open>y = fl (r / f)\<close>\<close>
  define a1 where "a1 = of_int r / f"
  have a1_abs: "\<bar>a1\<bar> = R / f" using fpos by (simp add: a1_def R_def)
  have "1 / 2 ^ 74 \<le> 1 / f" using f2 fpos by (simp add: frac_le)
  also have "\<dots> \<le> R / f" using R1 fpos by (simp add: divide_right_mono)
  finally have c: "1 / 2 ^ 74 \<le> R / f" .
  have "pow2 (- 1022) \<le> R / f" by (rule order_trans [OF tiny c])
  then have "pow2 (- 1022) \<le> \<bar>a1\<bar>" by (simp only: a1_abs)
  moreover have "\<bar>a1\<bar> \<le> R" using f1 R1 by (simp add: a1_abs divide_le_eq)
  then have "\<bar>a1\<bar> < pow2 1023" using R2 big by simp
  ultimately obtain y where y: "round_double a1 = Num y" "\<bar>y - a1\<bar> \<le> \<bar>a1\<bar> / 2 ^ 53"
    using round_double_error [of a1] by blast
  \<comment> \<open>second rounding: \<open>s = fl (y * f)\<close>\<close>
  define a2 where "a2 = y * f"
  have "a2 - of_int r = (y - a1) * f" using fpos by (simp add: a2_def a1_def left_diff_distrib)
  then have "\<bar>a2 - of_int r\<bar> = \<bar>y - a1\<bar> * f" using fpos by (simp add: abs_mult)
  also have "\<dots> \<le> \<bar>a1\<bar> / 2 ^ 53 * f" using y(2) fpos by (intro mult_right_mono) simp_all
  also have "\<dots> = R / 2 ^ 53" using fpos by (simp add: a1_abs)
  finally have e2: "\<bar>a2 - of_int r\<bar> \<le> R / 2 ^ 53" .
  have Rh: "R / 2 ^ 53 \<le> R / 2" using R1 by (simp add: frac_le)
  have "R - R / 2 ^ 53 \<le> \<bar>a2\<bar>" using e2 unfolding R_def by linarith
  then have "1 / 2 \<le> \<bar>a2\<bar>" using Rh R1 by linarith
  moreover have "pow2 (- 1022) \<le> 1 / 2"
  proof -
    have "pow2 (- 1022) \<le> pow2 (- 1)" by (simp add: pow2_le_iff)
    then show ?thesis by (simp add: pow2_m1)
  qed
  ultimately have lo2: "pow2 (- 1022) \<le> \<bar>a2\<bar>" by linarith
  have up2: "\<bar>a2\<bar> \<le> 2 * R" using e2 Rh unfolding R_def by linarith
  then have hi2: "\<bar>a2\<bar> < pow2 1023" using R2 big by simp
  obtain s where s: "round_double a2 = Num s" "\<bar>s - a2\<bar> \<le> \<bar>a2\<bar> / 2 ^ 53"
    using round_double_error [OF lo2 hi2] by blast
  have "\<bar>a2\<bar> / 2 ^ 53 \<le> 2 * R / 2 ^ 53" using up2 by (simp add: divide_right_mono)
  with s(2) e2 have "\<bar>s - of_int r\<bar> \<le> 3 * R / 2 ^ 53" by linarith
  also have "\<dots> \<le> 3 * 2 ^ 50 / 2 ^ 53" using R2 by (simp add: divide_right_mono)
  also have "\<dots> < (1 / 2 :: real)" by simp
  finally have "\<bar>s - of_int r\<bar> < 1 / 2" .
  then have "s - of_int r < 1 / 2 \<and> - (s - of_int r) < 1 / 2" by (simp only: abs_less_iff)
  then have fl: "\<lfloor>s + 1 / 2\<rfloor> = r" by (intro floor_unique) linarith+
  have "roundStable (Num y) d HALF_UP = round_double (of_int r / f)"
    using s(1) fl fpos
    by (simp add: roundStable_def isFinite_def Let_def Math_pow10_exact [OF d] a2_def f_def)
  then show ?thesis using y(1) by (simp add: a1_def f_def)
qed

text \<open>What \<open>roundStable\<close> returns for up to 22 decimals: the scaled value, rounded to a
  double, is rounded to an integer by the mode, and the quotient by the power of ten is
  rounded to a double.\<close>

lemma roundStable_value:
  assumes "0 \<le> d" "d \<le> 22" and "jmul x (Math_pow10 d) = Num s"
  shows "roundStable x d m = round_double (of_int (rounded_int m s) / 10 ^ nat d)"
proof -
  have "isFinite x"
    using assms(3)
    by (cases x)
       (simp_all add: isFinite_def Math_pow10_exact [OF assms(1,2)] inf_of_def split: if_splits)
  with assms show ?thesis
    by (cases m) (simp_all add: roundStable_def Let_def Math_pow10_exact rounded_int_def)
qed

lemma roundStable_non_finite: "\<not> isFinite x \<Longrightarrow> roundStable x d m = x"
  by (simp add: roundStable_def)


subsection \<open>Rounding twice\<close>

text \<open>The double \<open>0.58\<close> rounded \<open>DOWN\<close> to two decimals, step by step: \<open>0.58 * 100\<close> is
  the double \<open>57.99999999999999\<close>, its floor is 57, and \<open>57 / 100\<close> is the double \<open>0.57\<close>.
  Rounding \<open>0.57\<close> again gives \<open>0.56\<close> in the same way.\<close>

lemma double_058: "round_double (58 / 100) = Num (5224175567749775 / 9007199254740992)"
  using round_double_cert(1) [of "- 1" "58 / 100" 5224175567749775]
  by (simp add: cert_simps)

lemma scaled_058:
  "jmul (Num (5224175567749775 / 9007199254740992)) (Num 100)
     = Num (8162774324609023 / 140737488355328)"
  using round_double_cert(1) [of 5 "5224175567749775 / 9007199254740992 * 100" 8162774324609023]
  by (simp add: cert_simps)

lemma double_057: "jdiv (Num 57) (Num 100) = Num (5134103575202365 / 9007199254740992)"
  using round_double_cert(1) [of "- 1" "57 / 100" 5134103575202365]
  by (simp add: cert_simps)

lemma scaled_057:
  "jmul (Num (5134103575202365 / 9007199254740992)) (Num 100)
     = Num (8022036836253695 / 140737488355328)"
  using round_double_cert(1) [of 5 "5134103575202365 / 9007199254740992 * 100" 8022036836253695]
  by (simp add: cert_simps)

lemma double_056: "jdiv (Num 56) (Num 100) = Num (5044031582654956 / 9007199254740992)"
  using round_double_cert(1) [of "- 1" "56 / 100" 5044031582654956]
  by (simp add: cert_simps)

lemma down_058:
  "roundStable (round_double (58 / 100)) 2 DOWN = Num (5134103575202365 / 9007199254740992)"
  using double_058 scaled_058 double_057
  by (simp add: roundStable_def isFinite_def Let_def Math_pow10_2)

lemma down_057:
  "roundStable (Num (5134103575202365 / 9007199254740992)) 2 DOWN
     = Num (5044031582654956 / 9007199254740992)"
  using scaled_057 double_056
  by (simp add: roundStable_def isFinite_def Let_def Math_pow10_2)

text \<open>Against claim C8 as it is stated: \<open>roundStable\<close> applied twice to \<open>0.58\<close> with two
  decimals and mode \<open>DOWN\<close> is \<open>0.56\<close>, applied once it is \<open>0.57\<close>.\<close>

theorem roundStable_not_idempotent:
  "isFinite (round_double (58 / 100)) \<and>
   roundStable (round_double (58 / 100)) 2 DOWN = round_double (57 / 100) \<and>
   roundStable (roundStable (round_double (58 / 100)) 2 DOWN) 2 DOWN = round_double (56 / 100) \<and>
   roundStable (roundStable (round_double (58 / 100)) 2 DOWN) 2 DOWN
     \<noteq> roundStable (round_double (58 / 100)) 2 DOWN"
proof -
  have a: "round_double (57 / 100) = Num (5134103575202365 / 9007199254740992)"
    using double_057 by simp
  have b: "round_double (56 / 100) = Num (5044031582654956 / 9007199254740992)"
    using double_056 by simp
  have f: "isFinite (round_double (58 / 100))"
    using double_058 by (simp add: isFinite_def)
  show ?thesis
    using f down_058 down_057 a b by simp
qed

text \<open>
  Claim C8, amended. For a finite double \<open>x\<close>, \<open>roundStable\<close> is idempotent
  \<^item> in every mode when \<open>decimals = 0\<close>, and
  \<^item> in mode \<open>HALF_UP\<close> for \<open>0 \<le> decimals \<le> 22\<close> when the scaled value \<open>x * 10^decimals\<close>
    that the code computes is below \<open>2^50\<close> in magnitude.
  With decimals, the modes \<open>DOWN\<close> and \<open>TRUNC\<close> are not idempotent, since the product and
  the quotient by the power of ten are rounded to doubles.
\<close>

theorem roundStable_idempotent_where_exact:
  assumes "is_double x" and "isFinite x"
  shows "roundStable (roundStable x 0 m) 0 m = roundStable x 0 m \<and>
         (0 \<le> d \<and> d \<le> 22 \<and> (\<exists>s. jmul x (Math_pow10 d) = Num s \<and> \<bar>s\<bar> < 2 ^ 50) \<longrightarrow>
            roundStable (roundStable x d HALF_UP) d HALF_UP = roundStable x d HALF_UP)"
proof (intro conjI impI)
  show "roundStable (roundStable x 0 m) 0 m = roundStable x 0 m"
    using assms by (rule roundStable_idempotent_no_decimals)
next
  assume h: "0 \<le> d \<and> d \<le> 22 \<and> (\<exists>s. jmul x (Math_pow10 d) = Num s \<and> \<bar>s\<bar> < 2 ^ 50)"
  then obtain s where s: "jmul x (Math_pow10 d) = Num s" "\<bar>s\<bar> < 2 ^ 50" by blast
  define r where "r = \<lfloor>s + 1 / 2\<rfloor>"
  have "- (2 ^ 50) \<le> r \<and> r \<le> 2 ^ 50"
    using s(2) unfolding r_def by (auto simp: abs_less_iff; linarith)
  then have r: "\<bar>r\<bar> \<le> 2 ^ 50" by (simp add: abs_le_iff)
  have v: "roundStable x d HALF_UP = round_double (of_int r / 10 ^ nat d)"
    using h s(1) by (simp add: roundStable_value rounded_int_def r_def)
  show "roundStable (roundStable x d HALF_UP) d HALF_UP = roundStable x d HALF_UP"
    unfolding v using h r by (intro half_up_fixed_point) simp_all
qed

theorem roundStable_idempotent_where_exact_witness:
  "is_double (Num (5224175567749775 / 9007199254740992)) \<and>
   isFinite (Num (5224175567749775 / 9007199254740992)) \<and>
   roundStable (roundStable (Num (5224175567749775 / 9007199254740992)) 0 DOWN) 0 DOWN
     = roundStable (Num (5224175567749775 / 9007199254740992)) 0 DOWN \<and>
   (0 :: int) \<le> 2 \<and> (2 :: int) \<le> 22 \<and>
   jmul (Num (5224175567749775 / 9007199254740992)) (Math_pow10 2)
     = Num (8162774324609023 / 140737488355328) \<and>
   \<bar>8162774324609023 / 140737488355328 :: real\<bar> < 2 ^ 50 \<and>
   roundStable (roundStable (Num (5224175567749775 / 9007199254740992)) 2 HALF_UP) 2 HALF_UP
     = roundStable (Num (5224175567749775 / 9007199254740992)) 2 HALF_UP"
proof -
  have d: "is_double (Num (5224175567749775 / 9007199254740992))"
    using round_double_exact [of 5224175567749775 "- 53"]
    by (simp add: is_double_def pow2_def)
  have f: "isFinite (Num (5224175567749775 / 9007199254740992))"
    by (simp add: isFinite_def)
  have s: "jmul (Num (5224175567749775 / 9007199254740992)) (Math_pow10 2)
     = Num (8162774324609023 / 140737488355328)"
    using scaled_058 by (simp add: Math_pow10_2)
  have b: "\<bar>8162774324609023 / 140737488355328 :: real\<bar> < 2 ^ 50" by simp
  have n: "(0 :: int) \<le> 2" "(2 :: int) \<le> 22" by simp_all
  have e: "\<exists>s. jmul (Num (5224175567749775 / 9007199254740992)) (Math_pow10 2) = Num s
              \<and> \<bar>s\<bar> < 2 ^ 50"
    using s b by blast
  from roundStable_idempotent_where_exact [OF d f, of DOWN 2] n e
  have c: "roundStable (roundStable (Num (5224175567749775 / 9007199254740992)) 0 DOWN) 0 DOWN
       = roundStable (Num (5224175567749775 / 9007199254740992)) 0 DOWN"
    "roundStable (roundStable (Num (5224175567749775 / 9007199254740992)) 2 HALF_UP) 2 HALF_UP
       = roundStable (Num (5224175567749775 / 9007199254740992)) 2 HALF_UP"
    by blast+
  show ?thesis
    by (intro conjI d f c n s b)
qed

section \<open>Conversion engine and avoided emissions\<close>

lemma safeMultiply_product: "safeMultiply rt a b = jmul a b"
  by (simp add: safeMultiply_def Let_def)

text \<open>
  Claim C10. \<open>safeMultiply\<close> is the product of its operands, whatever their magnitude: the
  branch for a product below \<open>1e-10\<close> computes the numbers of decimals of the two operands
  and returns the product in both of its cases.
\<close>

theorem safeMultiply_is_multiplication: "safeMultiply rt = jmul"
  by (intro ext) (simp add: safeMultiply_def Let_def)

text \<open>
  Claim C5. \<open>toCO2eKg\<close> fails with the error for a non-finite input when the energy or the
  factor is not finite; with the error for a negative energy when both are finite and the
  energy is below zero; with the error for a negative factor when both are finite, the
  energy is not below zero and the factor is. So \<open>toCO2eKg(-1, kWh, 0.5)\<close> fails with the
  second and \<open>toCO2eKg(1, kWh, -0.5)\<close> with the third. A failure is a value \<open>Inl\<close>: no
  number is returned.
\<close>

theorem toCO2eKg_rejects:
  "(\<not> isFinite e \<or> \<not> isFinite f \<longrightarrow>
      toCO2eKg rt e unit f = Inl NonFiniteInput) \<and>
   (isFinite e \<and> isFinite f \<and> jlt e (Num 0) \<longrightarrow>
      toCO2eKg rt e unit f = Inl NegativeEnergy) \<and>
   (isFinite e \<and> isFinite f \<and> \<not> jlt e (Num 0) \<and> jlt f (Num 0) \<longrightarrow>
      toCO2eKg rt e unit f = Inl NegativeFactor) \<and>
   toCO2eKg rt (Num (- 1)) kWh (round_double (1 / 2)) = Inl NegativeEnergy \<and>
   toCO2eKg rt (Num 1) kWh (round_double (- 1 / 2)) = Inl NegativeFactor"
proof -
  have h: "round_double (1 / 2) = Num (1 / 2)" "round_double (- 1 / 2) = Num (- 1 / 2)"
    using round_double_exact [of 1 "- 1"] round_double_exact [of "- 1" "- 1"]
    by (simp_all add: pow2_m1)
  show ?thesis using h by (simp add: toCO2eKg_def isFinite_def)
qed

theorem toCO2eKg_rejects_witness:
  "\<forall>rt0. \<not> isFinite NaN \<and> toCO2eKg rt0 NaN kWh (Num 1) = Inl (Error ''Energy and factor must be finite numbers'') \<and>
   \<not> isFinite PosInf \<and> toCO2eKg rt0 (Num 1000) kWh PosInf = Inl (Error ''Energy and factor must be finite numbers'') \<and>
   isFinite (Num (- 1000)) \<and> isFinite (Num (1 / 2)) \<and> jlt (Num (- 1000)) (Num 0) \<and>
   toCO2eKg rt0 (Num (- 1000)) kWh (Num (1 / 2)) = Inl (Error ''Energy cannot be negative'') \<and>
   isFinite (Num 1000) \<and> isFinite (Num (- 1 / 2)) \<and> \<not> jlt (Num 1000) (Num 0) \<and> jlt (Num (- 1 / 2)) (Num 0) \<and>
   toCO2eKg rt0 (Num 1000) kWh (Num (- 1 / 2)) = Inl (Error ''Emission factor cannot be negative'')"
proof
  fix rt0
  show "\<not> isFinite NaN \<and> toCO2eKg rt0 NaN kWh (Num 1) = Inl (Error ''Energy and factor must be finite numbers'') \<and>
   \<not> isFinite PosInf \<and> toCO2eKg rt0 (Num 1000) kWh PosInf = Inl (Error ''Energy and factor must be finite numbers'') \<and>
   isFinite (Num (- 1000)) \<and> isFinite (Num (1 / 2)) \<and> jlt (Num (- 1000)) (Num 0) \<and>
   toCO2eKg rt0 (Num (- 1000)) kWh (Num (1 / 2)) = Inl (Error ''Energy cannot be negative'') \<and>
   isFinite (Num 1000) \<and> isFinite (Num (- 1 / 2)) \<and> \<not> jlt (Num 1000) (Num 0) \<and> jlt (Num (- 1 / 2)) (Num 0) \<and>
   toCO2eKg rt0 (Num 1000) kWh (Num (- 1 / 2)) = Inl (Error ''Emission factor cannot be negative'')"
    using toCO2eKg_rejects [of NaN "Num 1" rt0 kWh] toCO2eKg_rejects [of "Num 1000" PosInf rt0 kWh]
      toCO2eKg_rejects [of "Num (- 1000)" "Num (1 / 2)" rt0 kWh]
      toCO2eKg_rejects [of "Num 1000" "Num (- 1 / 2)" rt0 kWh]
    by (simp add: isFinite_def NonFiniteInput_def NegativeEnergy_def NegativeFactor_def)
qed

subsection \<open>The total of two small items\<close>

text \<open>One item of 1 kWh at 0.0004 kg/kWh: 4.0000000000000003e-07 tonnes, which
  \<open>avoidedEmissions\<close> rounds to six decimals, that is to 0.\<close>

lemma tiny_factor: "round_double (4 / 10000) = Num (7378697629483821 / 18446744073709551616)"
  using round_double_cert(1) [of "- 12" "4 / 10000" 7378697629483821]
  by (simp add: cert_simps)

lemma tiny_kg:
  "jmul (Num 1) (Num (7378697629483821 / 18446744073709551616))
     = Num (7378697629483821 / 18446744073709551616)"
  using round_double_exact [of 7378697629483821 "- 64"] by (simp add: pow2_def)

lemma tiny_tonnes:
  "jdiv (Num (7378697629483821 / 18446744073709551616)) (Num 1000)
     = Num (7555786372591433 / 18889465931478580854784)"
  using round_double_cert(1) [of "- 22" "7378697629483821 / 18446744073709551616 / 1000"
      7555786372591433]
  by (simp add: cert_simps)

lemma tiny_scaled:
  "jmul (Num (7555786372591433 / 18889465931478580854784)) (Num 1000000)
     = Num (3602879701896397 / 9007199254740992)"
  using round_double_cert(1) [of "- 2" "7555786372591433 / 18889465931478580854784 * 1000000"
      7205759403792794]
  by (simp add: cert_simps)

lemma tiny_rounded:
  "roundStable (Num (7555786372591433 / 18889465931478580854784)) 6 HALF_UP = Num 0"
  using tiny_scaled by (simp add: roundStable_def isFinite_def Let_def Math_pow10_6 round_double_0)

lemma zero_rounded: "roundStable (Num 0) 6 HALF_UP = Num 0"
  by (simp add: roundStable_def isFinite_def Let_def Math_pow10_6 round_double_0)

lemma tiny_avoided:
  "\<exists>r. avoidedEmissions rt tiny_item = Inr r \<and> tCO2e r = Num 0"
  using tiny_factor tiny_kg tiny_tonnes tiny_rounded
  by (simp add: avoidedEmissions_def tiny_item_def isFinite_def safeMultiply_product Let_def
        decimals_or_default_def mode_or_default_def)

lemma tiny_tonnes_unrounded:
  "toCO2eTonnes rt (Num 1) kWh (round_double (4 / 10000))
     = Inr (Num (7555786372591433 / 18889465931478580854784))"
  using tiny_factor tiny_kg tiny_tonnes
  by (simp add: toCO2eTonnes_def toCO2eKg_def isFinite_def safeMultiply_product)

lemma tiny_sum:
  "jadd (jadd (Num 0) (Num (7555786372591433 / 18889465931478580854784)))
        (Num (7555786372591433 / 18889465931478580854784))
     = Num (7555786372591433 / 9444732965739290427392)"
  using round_double_exact [of 7555786372591433 "- 74"]
    round_double_exact [of 7555786372591433 "- 73"]
  by (simp add: pow2_def)

lemma tiny_sum_scaled:
  "jmul (Num (7555786372591433 / 9444732965739290427392)) (Num 1000000)
     = Num (3602879701896397 / 4503599627370496)"
  using round_double_cert(1) [of "- 1" "7555786372591433 / 9444732965739290427392 * 1000000"
      7205759403792794]
  by (simp add: cert_simps)

lemma one_millionth:
  "round_double (1 / 1000000) = Num (4722366482869645 / 4722366482869645213696)"
  using round_double_cert(1) [of "- 20" "1 / 1000000" 4722366482869645]
  by (simp add: cert_simps)

lemma tiny_sum_rounded:
  "roundStable (Num (7555786372591433 / 9444732965739290427392)) 6 HALF_UP
     = round_double (1 / 1000000)"
  using tiny_sum_scaled
  by (simp add: roundStable_def isFinite_def Let_def Math_pow10_6)

text \<open>
  Claim C2 says that \<open>totalAvoidedEmissions\<close> sums the unrounded values of the items and
  rounds once. It sums the fields of the results of \<open>avoidedEmissions\<close>, which are rounded
  with the rounding of each item (six decimals, \<open>HALF_UP\<close>, when the item has none). For
  two items of 1 kWh at 0.0004 kg/kWh the total is 0 tonnes; the sum of the unrounded
  values, rounded once, is 0.000001 tonnes, which is also what \<open>totalCO2eTonnes\<close> returns
  for the same two inputs.
\<close>

theorem totalAvoidedEmissions_rounds_each_item:
  "(\<exists>r. totalAvoidedEmissions rt [tiny_item, tiny_item] None = Inr r \<and> tCO2e r = Num 0) \<and>
   totalCO2eTonnes rt [tiny_conversion, tiny_conversion] 6 HALF_UP
     = Inr (round_double (1 / 1000000)) \<and>
   round_double (1 / 1000000) \<noteq> Num 0"
proof -
  obtain r where r: "avoidedEmissions rt tiny_item = Inr r" "tCO2e r = Num 0"
    using tiny_avoided by blast
  have 1: "\<exists>r. totalAvoidedEmissions rt [tiny_item, tiny_item] None = Inr r \<and> tCO2e r = Num 0"
    using r zero_rounded
    by (simp add: totalAvoidedEmissions_def batchAvoidedEmissions_def Let_def round_double_0
          decimals_or_default_def mode_or_default_def)
  have 2: "totalCO2eTonnes rt [tiny_conversion, tiny_conversion] 6 HALF_UP
     = Inr (round_double (1 / 1000000))"
    using tiny_tonnes_unrounded tiny_sum tiny_sum_rounded
    by (simp add: totalCO2eTonnes_def batchToCO2eTonnes_def tiny_conversion_def Let_def)
  have 3: "round_double (1 / 1000000) \<noteq> Num 0"
    using one_millionth by simp
  from 1 2 3 show ?thesis by blast
qed

section \<open>Factor resolution\<close>

lemmas date_simps = Date_parse_def iso_date_only_def digits_val_def digit_val_def
  days_in_month_def is_leap_def days_from_civil_def Let_def

lemmas region_simps = normalizeRegionCode_def toUpperCase_def is_ascii_def upper_char_def
  getRegionInfo_def defaultRegions_def defaultRegistry_def

lemma Date_parse_2099: "Date_parse rt ''2099-12-31'' = Some 4102358400000"
  by (simp add: date_simps)

lemma Date_parse_2024: "Date_parse rt ''2024-01-01'' = Some 1704067200000"
  by (simp add: date_simps)

lemma Date_parse_2020: "Date_parse rt ''2020-01-01'' = Some 1577836800000"
  by (simp add: date_simps)

lemma Date_parse_2100: "Date_parse rt ''2100-01-01'' = Some 4102444800000"
  by (simp add: date_simps)

lemmas factor_defs = defaultFactors_def WORLD_DEFAULT_2024_def IN_2024_BASELINE_def
  US_2024_BASELINE_def EU_2024_BASELINE_def

lemma default_pack: "defaultFactorPack defaultRegistry = defaultFactors" "defaultFactors \<noteq> []"
  by (simp_all add: defaultRegistry_def defaultFactors_def)

lemma normalize_IN: "normalizeRegionCode rt defaultRegistry ''IN'' = ''IN''"
  by (simp add: region_simps)

lemma normalize_UNKNOWN: "normalizeRegionCode rt defaultRegistry ''UNKNOWN'' = ''UNKNOWN''"
  by (simp add: region_simps)

lemma normalize_ind: "normalizeRegionCode rt defaultRegistry ''ind'' = ''IN''"
  by (simp add: region_simps)

lemma normalize_xx: "normalizeRegionCode rt defaultRegistry ''xx'' = ''XX''"
  by (simp add: region_simps)

lemma matching_IN: "matching defaultFactors ''IN'' baseline = [IN_2024_BASELINE]"
  by (simp add: matching_def factor_defs)

lemma matching_WORLD: "matching defaultFactors ''WORLD'' baseline = [WORLD_DEFAULT_2024]"
  by (simp add: matching_def factor_defs)

lemma matching_UNKNOWN: "matching defaultFactors ''UNKNOWN'' baseline = []"
  by (simp add: matching_def factor_defs)

lemma candidatesFor_IN: "candidatesFor defaultFactors ''IN'' baseline = [IN_2024_BASELINE]"
  by (simp add: candidatesFor_def matching_IN)

lemma candidatesFor_XX: "candidatesFor defaultFactors ''XX'' baseline = [WORLD_DEFAULT_2024]"
  by (simp add: candidatesFor_def matching_WORLD) (simp add: matching_def factor_defs)

lemma default_from: "effectiveFrom (WORLD_DEFAULT_2024) = ''2024-01-01''"
  "effectiveFrom (IN_2024_BASELINE) = ''2024-01-01''"
  "effectiveTo (WORLD_DEFAULT_2024) = None" "effectiveTo (IN_2024_BASELINE) = None"
  by (simp_all add: factor_defs)

text \<open>
  Claim C9. When the table that a query is resolved against (the overrides if the query
  has them, the loaded pack otherwise) is empty, \<open>resolveFactor\<close> fails with the error
  "No factors available. Initialize factor registry first."; it returns no factor.
\<close>

theorem resolveFactor_empty_table:
  assumes "(case opt_overrides options of Some ov \<Rightarrow> ov | None \<Rightarrow> defaultFactorPack st) = []"
  shows "resolveFactor rt st options = Inl RegistryUninitialized"
  using assms by (simp add: resolveFactor_def Let_def)

theorem resolveFactor_empty_table_witness:
  "(case opt_overrides \<lparr>opt_region = Some ''IN'', opt_date = None, opt_scope = Some baseline,
        opt_overrides = None\<rparr> of Some ov \<Rightarrow> ov | None \<Rightarrow> defaultFactorPack initialRegistry) = [] \<and>
   (\<forall>rt. resolveFactor rt initialRegistry
     \<lparr>opt_region = Some ''IN'', opt_date = None, opt_scope = Some baseline, opt_overrides = None\<rparr>
     = Inl (Error ''No factors available. Initialize factor registry first.''))"
  using resolveFactor_empty_table [where st = initialRegistry and options = "\<lparr>opt_region = Some ''IN'',
      opt_date = None, opt_scope = Some baseline, opt_overrides = None\<rparr>"]
  by (simp add: initialRegistry_def RegistryUninitialized_def)

text \<open>
  Claim C4. For a query without a date: when no factor of the table matches the
  normalized region and the scope \<open>baseline\<close> and some factor matches \<open>WORLD\<close> and
  \<open>baseline\<close>, \<open>resolveFactor\<close> returns a \<open>WORLD\<close> baseline factor, the first of the table;
  and when some factor matches the normalized region, it returns the first of those, so
  the fallback is taken only when the region has no candidate. The region is normalized as
  the runtime upper-cases it, whatever its characters.
\<close>

theorem resolveFactor_world_fallback:
  assumes "factorPack = (case ov of Some p \<Rightarrow> p | None \<Rightarrow> defaultFactorPack st)"
  shows "(matching factorPack (normalizeRegionCode rt st R) baseline = [] \<and>
          matching factorPack ''WORLD'' baseline \<noteq> [] \<longrightarrow>
            (\<exists>w. resolveFactor rt st \<lparr>opt_region = Some R, opt_date = None,
                    opt_scope = Some baseline, opt_overrides = ov\<rparr> = Inr w \<and>
                 w = hd (matching factorPack ''WORLD'' baseline) \<and>
                 region w = ''WORLD'' \<and> scope w = baseline)) \<and>
         (matching factorPack (normalizeRegionCode rt st R) baseline \<noteq> [] \<longrightarrow>
            (\<exists>c. resolveFactor rt st \<lparr>opt_region = Some R, opt_date = None,
                    opt_scope = Some baseline, opt_overrides = ov\<rparr> = Inr c \<and>
                 c = hd (matching factorPack (normalizeRegionCode rt st R) baseline) \<and>
                 region c = normalizeRegionCode rt st R \<and> scope c = baseline))"
proof -
  have hd_in: "\<And>r. matching factorPack r baseline \<noteq> [] \<Longrightarrow>
      region (hd (matching factorPack r baseline)) = r \<and>
      scope (hd (matching factorPack r baseline)) = baseline"
  proof -
    fix r assume ne: "matching factorPack r baseline \<noteq> []"
    then have "hd (matching factorPack r baseline) \<in> set (matching factorPack r baseline)"
      by simp
    then show "region (hd (matching factorPack r baseline)) = r \<and>
      scope (hd (matching factorPack r baseline)) = baseline"
      unfolding matching_def by (metis (mono_tags, lifting) mem_Collect_eq set_filter)
  qed
  have ne: "\<And>r. matching factorPack r baseline \<noteq> [] \<Longrightarrow> factorPack \<noteq> []"
    by (auto simp: matching_def)
  show ?thesis
    using hd_in [of "''WORLD''"] hd_in [of "normalizeRegionCode rt st R"]
      ne [of "''WORLD''"] ne [of "normalizeRegionCode rt st R"] assms
    by (auto simp: resolveFactor_def Let_def candidatesFor_def)
qed

theorem resolveFactor_world_fallback_witness:
  "\<forall>rt. matching defaultFactors (normalizeRegionCode rt defaultRegistry ''UNKNOWN'') baseline = [] \<and>
   matching defaultFactors ''WORLD'' baseline \<noteq> [] \<and>
   resolveFactor rt defaultRegistry \<lparr>opt_region = Some ''UNKNOWN'', opt_date = None,
       opt_scope = Some baseline, opt_overrides = None\<rparr> = Inr (WORLD_DEFAULT_2024) \<and>
   region (WORLD_DEFAULT_2024) = ''WORLD'' \<and>
   matching defaultFactors (normalizeRegionCode rt defaultRegistry ''IN'') baseline \<noteq> [] \<and>
   resolveFactor rt defaultRegistry \<lparr>opt_region = Some ''IN'', opt_date = None,
       opt_scope = Some baseline, opt_overrides = None\<rparr> = Inr (IN_2024_BASELINE) \<and>
   region (IN_2024_BASELINE) = ''IN''"
proof
  fix rt
  show "matching defaultFactors (normalizeRegionCode rt defaultRegistry ''UNKNOWN'') baseline = [] \<and>
   matching defaultFactors ''WORLD'' baseline \<noteq> [] \<and>
   resolveFactor rt defaultRegistry \<lparr>opt_region = Some ''UNKNOWN'', opt_date = None,
       opt_scope = Some baseline, opt_overrides = None\<rparr> = Inr (WORLD_DEFAULT_2024) \<and>
   region (WORLD_DEFAULT_2024) = ''WORLD'' \<and>
   matching defaultFactors (normalizeRegionCode rt defaultRegistry ''IN'') baseline \<noteq> [] \<and>
   resolveFactor rt defaultRegistry \<lparr>opt_region = Some ''IN'', opt_date = None,
       opt_scope = Some baseline, opt_overrides = None\<rparr> = Inr (IN_2024_BASELINE) \<and>
   region (IN_2024_BASELINE) = ''IN''"
    using resolveFactor_world_fallback [where factorPack = defaultFactors and ov = None
          and st = defaultRegistry and R = "''UNKNOWN''" and rt = rt]
      resolveFactor_world_fallback [where factorPack = defaultFactors and ov = None
          and st = defaultRegistry and R = "''IN''" and rt = rt]
    by (simp add: normalize_UNKNOWN normalize_IN matching_UNKNOWN matching_WORLD matching_IN
          default_pack)
qed

text \<open>
  Claim C6. For a query with a date: when there are candidates for the region and scope
  (after the fallback to \<open>WORLD\<close>) and the effective range of none of them contains the
  date, \<open>resolveFactor\<close> fails with \<open>NoFactorForDateError\<close>, and the error carries the
  region as the caller wrote it, not the normalized region and not \<open>WORLD\<close>. The date is
  any string that the code takes for a date (a string that is not empty), read as the
  runtime reads it.
\<close>

theorem resolveFactor_no_factor_for_date:
  assumes "factorPack = (case ov of Some p \<Rightarrow> p | None \<Rightarrow> defaultFactorPack st)"
    and "date \<noteq> []"
    and "candidatesFor factorPack (normalizeRegionCode rt st R) sc \<noteq> []"
    and "filter (inEffectiveRange rt (Date_parse rt date))
           (candidatesFor factorPack (normalizeRegionCode rt st R) sc) = []"
  shows "resolveFactor rt st \<lparr>opt_region = Some R, opt_date = Some date, opt_scope = Some sc,
           opt_overrides = ov\<rparr> = Inl (NoFactorForDateError R date)"
proof -
  from assms(3) have "factorPack \<noteq> []"
    by (auto simp: candidatesFor_def matching_def Let_def split: if_splits)
  with assms show ?thesis
    by (simp add: resolveFactor_def Let_def)
qed

text \<open>The scenario of the claim is the query for \<open>IN\<close>, \<open>baseline\<close> and 2020-01-01 against the
  default pack, whose only \<open>IN\<close> baseline factor is effective from 2024-01-01. The second
  query names a region in lower case that has no factor: the candidates are those of
  \<open>WORLD\<close>, and the error names \<open>xx\<close>.\<close>

theorem resolveFactor_no_factor_for_date_witness:
  "\<forall>rt. ''2020-01-01'' \<noteq> [] \<and>
   candidatesFor defaultFactors (normalizeRegionCode rt defaultRegistry ''IN'') baseline \<noteq> [] \<and>
   filter (inEffectiveRange rt (Date_parse rt ''2020-01-01''))
     (candidatesFor defaultFactors (normalizeRegionCode rt defaultRegistry ''IN'') baseline) = [] \<and>
   resolveFactor rt defaultRegistry \<lparr>opt_region = Some ''IN'', opt_date = Some ''2020-01-01'',
       opt_scope = Some baseline, opt_overrides = None\<rparr>
     = Inl (NoFactorForDateError ''IN'' ''2020-01-01'') \<and>
   candidatesFor defaultFactors (normalizeRegionCode rt defaultRegistry ''xx'') baseline
     = [WORLD_DEFAULT_2024] \<and>
   resolveFactor rt defaultRegistry \<lparr>opt_region = Some ''xx'', opt_date = Some ''2020-01-01'',
       opt_scope = Some baseline, opt_overrides = None\<rparr>
     = Inl (NoFactorForDateError ''xx'' ''2020-01-01'')"
proof
  fix rt
  show "''2020-01-01'' \<noteq> [] \<and>
   candidatesFor defaultFactors (normalizeRegionCode rt defaultRegistry ''IN'') baseline \<noteq> [] \<and>
   filter (inEffectiveRange rt (Date_parse rt ''2020-01-01''))
     (candidatesFor defaultFactors (normalizeRegionCode rt defaultRegistry ''IN'') baseline) = [] \<and>
   resolveFactor rt defaultRegistry \<lparr>opt_region = Some ''IN'', opt_date = Some ''2020-01-01'',
       opt_scope = Some baseline, opt_overrides = None\<rparr>
     = Inl (NoFactorForDateError ''IN'' ''2020-01-01'') \<and>
   candidatesFor defaultFactors (normalizeRegionCode rt defaultRegistry ''xx'') baseline
     = [WORLD_DEFAULT_2024] \<and>
   resolveFactor rt defaultRegistry \<lparr>opt_region = Some ''xx'', opt_date = Some ''2020-01-01'',
       opt_scope = Some baseline, opt_overrides = None\<rparr>
     = Inl (NoFactorForDateError ''xx'' ''2020-01-01'')"
    using resolveFactor_no_factor_for_date [where factorPack = defaultFactors and ov = None
        and st = defaultRegistry and R = "''IN''" and sc = baseline and date = "''2020-01-01''"
        and rt = rt]
      resolveFactor_no_factor_for_date [where factorPack = defaultFactors and ov = None
        and st = defaultRegistry and R = "''xx''" and sc = baseline and date = "''2020-01-01''"
        and rt = rt]
    by (simp add: normalize_IN normalize_xx candidatesFor_IN candidatesFor_XX
          inEffectiveRange_def default_from Date_parse_2020 Date_parse_2024 Date_parse_2099
          default_pack)
qed

text \<open>The query for \<open>IN\<close>, \<open>baseline\<close> and 2100-01-01 against the default pack fails, with
  every runtime: the three dates involved are date-only ISO strings.\<close>

lemma resolveFactor_IN_2100:
  "resolveFactor rt defaultRegistry \<lparr>opt_region = Some ''IN'', opt_date = Some ''2100-01-01'',
       opt_scope = Some baseline, opt_overrides = None\<rparr>
     = Inl (NoFactorForDateError ''IN'' ''2100-01-01'')"
  by (simp add: resolveFactor_def Let_def normalize_IN candidatesFor_IN inEffectiveRange_def
        default_from Date_parse_2100 Date_parse_2024 Date_parse_2099 default_pack)

text \<open>Against claim C3 as it is stated: the only baseline factor of \<open>IN\<close> in the default
  pack has no \<open>effectiveTo\<close> and is effective from 2024-01-01, and the query for
  2100-01-01 fails.\<close>

theorem resolveFactor_open_ended_counterexample:
  "matching defaultFactors (normalizeRegionCode bare_runtime defaultRegistry ''IN'') baseline
     = [IN_2024_BASELINE] \<and>
   effectiveTo (IN_2024_BASELINE) = None \<and>
   date_ge (Date_parse bare_runtime ''2100-01-01'')
     (Date_parse bare_runtime (effectiveFrom (IN_2024_BASELINE))) \<and>
   resolveFactor bare_runtime defaultRegistry \<lparr>opt_region = Some ''IN'',
       opt_date = Some ''2100-01-01'', opt_scope = Some baseline, opt_overrides = None\<rparr>
     = Inl (NoFactorForDateError ''IN'' ''2100-01-01'')"
  by (simp add: normalize_IN matching_IN default_from Date_parse_2100 Date_parse_2024
        resolveFactor_IN_2100)

text \<open>
  Claim C3, amended. When the only candidate for the region and scope has no
  \<open>effectiveTo\<close>, \<open>resolveFactor\<close> returns it for every date from its \<open>effectiveFrom\<close> to
  2099-12-31, the date that the code takes for the end of an open range.
\<close>

theorem resolveFactor_open_ended_until_2099:
  assumes "factorPack = (case ov of Some p \<Rightarrow> p | None \<Rightarrow> defaultFactorPack st)"
    and "matching factorPack (normalizeRegionCode rt st R) sc = [f]"
    and "effectiveTo f = None"
    and "date_ge (Date_parse rt date) (Date_parse rt (effectiveFrom f))"
    and "date_le (Date_parse rt date) (Date_parse rt ''2099-12-31'')"
  shows "resolveFactor rt st \<lparr>opt_region = Some R, opt_date = Some date, opt_scope = Some sc,
           opt_overrides = ov\<rparr> = Inr f"
proof -
  from assms(2) have ne: "factorPack \<noteq> []" by (auto simp: matching_def)
  from assms(2) have c: "candidatesFor factorPack (normalizeRegionCode rt st R) sc = [f]"
    by (simp add: candidatesFor_def)
  have r: "inEffectiveRange rt (Date_parse rt date) f"
    using assms(3,4,5) by (simp add: inEffectiveRange_def)
  show ?thesis
    using assms(1) ne c r by (simp add: resolveFactor_def Let_def)
qed

theorem resolveFactor_open_ended_until_2099_witness:
  "\<forall>rt. matching defaultFactors (normalizeRegionCode rt defaultRegistry ''IN'') baseline
     = [IN_2024_BASELINE] \<and>
   effectiveTo (IN_2024_BASELINE) = None \<and>
   date_ge (Date_parse rt ''2099-12-31'') (Date_parse rt (effectiveFrom (IN_2024_BASELINE))) \<and>
   date_le (Date_parse rt ''2099-12-31'') (Date_parse rt ''2099-12-31'') \<and>
   resolveFactor rt defaultRegistry \<lparr>opt_region = Some ''IN'', opt_date = Some ''2099-12-31'',
       opt_scope = Some baseline, opt_overrides = None\<rparr> = Inr (IN_2024_BASELINE)"
proof
  fix rt
  show "matching defaultFactors (normalizeRegionCode rt defaultRegistry ''IN'') baseline
     = [IN_2024_BASELINE] \<and>
   effectiveTo (IN_2024_BASELINE) = None \<and>
   date_ge (Date_parse rt ''2099-12-31'') (Date_parse rt (effectiveFrom (IN_2024_BASELINE))) \<and>
   date_le (Date_parse rt ''2099-12-31'') (Date_parse rt ''2099-12-31'') \<and>
   resolveFactor rt defaultRegistry \<lparr>opt_region = Some ''IN'', opt_date = Some ''2099-12-31'',
       opt_scope = Some baseline, opt_overrides = None\<rparr> = Inr (IN_2024_BASELINE)"
    using resolveFactor_open_ended_until_2099 [where factorPack = defaultFactors and ov = None
        and st = defaultRegistry and R = "''IN''" and sc = baseline and f = "IN_2024_BASELINE"
        and date = "''2099-12-31''" and rt = rt]
    by (simp add: normalize_IN matching_IN default_from Date_parse_2099 Date_parse_2024
          default_pack)
qed

section \<open>Canonical serialization\<close>

subsection \<open>The order of insertion of the keys\<close>

lemma mset_own_properties: "mset (own_properties ps) = mset ps"
  by (simp add: own_properties_def)

lemma mset_Object_keys: "mset (Object_keys ps) = mset (map fst ps)"
  by (simp add: Object_keys_def mset_own_properties)

lemma sort_eq_of_mset_eq:
  fixes xs ys :: "'a :: linorder list"
  assumes "mset xs = mset ys"
  shows "sort xs = sort ys"
  using assms by (intro properties_for_sort) simp_all

lemma list_all2_same_keys:
  "list_all2 (\<lambda>p q. fst p = fst q \<and> P (snd p) (snd q)) ps qs \<Longrightarrow> map fst qs = map fst ps"
  by (induction rule: list_all2_induct) auto

lemma list_all2_get_prop:
  assumes "list_all2 (\<lambda>p q. fst p = fst q \<and> f (snd p) = f (snd q)) ps qs"
  shows "f (get_prop ps key) = f (get_prop qs key)"
  using assms by (induction rule: list_all2_induct) (auto simp: get_prop_def)

lemma normalizeObject_key_order:
  assumes "same_up_to_key_order a b"
  shows "normalizeObject rt d a = normalizeObject rt d b"
  using assms
proof (induction rule: same_up_to_key_order.induct)
  case (5 xs ys)
  then have "map (normalizeObject rt d) xs = map (normalizeObject rt d) ys"
    by (induction rule: list_all2_induct) auto
  then show ?case by simp
next
  case (6 ps qs qs')
  from "6.IH" have keys': "map fst qs' = map fst ps"
    by (rule list_all2_same_keys)
  from "6.IH"
  have rel: "list_all2 (\<lambda>p q. fst p = fst q \<and>
      normalizeObject rt d (snd p) = normalizeObject rt d (snd q)) ps qs'"
    by (rule list_all2_mono) auto
  have dq': "distinct (map fst qs')" using "6.hyps"(1) keys' by simp
  have "mset (map fst qs) = mset (map fst qs')"
    using "6.hyps"(2) by (metis mset_map)
  then have dq: "distinct (map fst qs)"
    using dq' by (metis mset_eq_imp_distinct_iff)
  have "set qs = set qs'" using "6.hyps"(2) by (rule mset_eq_setD)
  with dq dq' have m: "map_of qs = map_of qs'"
    by (simp add: map_of_inject_set)
  have vals: "\<And>key. normalizeObject rt d (get_prop ps key) = normalizeObject rt d (get_prop qs key)"
  proof -
    fix key
    have "get_prop qs key = get_prop qs' key" by (simp add: get_prop_def m)
    with list_all2_get_prop [OF rel, of key]
    show "normalizeObject rt d (get_prop ps key) = normalizeObject rt d (get_prop qs key)"
      by simp
  qed
  have "mset (Object_keys ps) = mset (Object_keys qs)"
    using "6.hyps"(2) keys' by (metis mset_Object_keys mset_map)
  then have "sort (Object_keys ps) = sort (Object_keys qs)"
    by (rule sort_eq_of_mset_eq)
  with vals show ?case by simp
qed simp_all

text \<open>Two values that are the same up to the order of the keys of their objects, at any
  depth, have the same serialization, byte for byte; so have the two objects of the test.\<close>

lemma stableStringify_same_up_to_key_order:
  assumes "same_up_to_key_order a b"
  shows "stableStringify rt a d = stableStringify rt b d"
  using normalizeObject_key_order [OF assms, of rt d] by (simp add: stableStringify_def)

lemma same_up_to_key_order_nested: "same_up_to_key_order nested_ab nested_ba"
proof -
  have inner: "same_up_to_key_order
      (JObject [(''x'', JNumber (Num 1)), (''y'', JNumber (Num 2))])
      (JObject [(''y'', JNumber (Num 2)), (''x'', JNumber (Num 1))])"
    by (rule same_up_to_key_order.intros(6)
          [where qs' = "[(''x'', JNumber (Num 1)), (''y'', JNumber (Num 2))]"])
       (simp_all add: same_up_to_key_order.intros)
  show ?thesis
    unfolding nested_ab_def nested_ba_def
    by (rule same_up_to_key_order.intros(6)
          [where qs' = "[(''a'', JObject [(''y'', JNumber (Num 2)), (''x'', JNumber (Num 1))]),
                         (''b'', JNumber (Num 3))]"])
       (simp_all add: same_up_to_key_order.intros inner)
qed

lemma stableStringify_nested: "stableStringify rt nested_ab d = stableStringify rt nested_ba d"
  by (rule stableStringify_same_up_to_key_order) (rule same_up_to_key_order_nested)

subsection \<open>The text that is written\<close>

lemma insort_key_image:
  "insort_key h (g x) (map g ys) = map g (insort_key (\<lambda>y. h (g y)) x ys)"
  by (induction ys) simp_all

lemma sort_key_image: "sort_key h (map g xs) = map g (sort_key (\<lambda>y. h (g y)) xs)"
  by (induction xs) (simp_all add: insort_key_image)

lemma own_properties_keyed:
  "own_properties (map (\<lambda>k. (k, f k)) ks) = map (\<lambda>k. (k, f k)) (visiting_order ks)"
  by (simp add: own_properties_def visiting_order_def filter_map comp_def sort_key_image)

text \<open>A string is written as the runtime quotes it, and an array element by element in
  the order of the array.\<close>

lemma stableStringify_string: "stableStringify rt (JString s) d = JSON_quote rt s"
  by (simp add: stableStringify_def)

lemma stableStringify_array:
  "stableStringify rt (JArray xs) d =
     ''['' @ join_comma (map (\<lambda>x. stableStringify rt x d) xs) @ '']''"
  by (simp add: stableStringify_def comp_def)

text \<open>An object is written key by key; the keys are sorted and then visited as the
  runtime visits the properties of the object that the code has built: array indices
  first, in numeric order, and then the other keys, in sorted order.\<close>

lemma stableStringify_object:
  "stableStringify rt (JObject ps) d =
     ''{'' @ join_comma (map (\<lambda>k. JSON_quote rt k @ '':'' @ stableStringify rt (get_prop ps k) d)
                          (visiting_order (sort (map fst ps)))) @ ''}''"
proof -
  have keys: "sort (Object_keys ps) = sort (map fst ps)"
    by (rule sort_eq_of_mset_eq) (rule mset_Object_keys)
  have "map (\<lambda>(k, v). (k, JSON_stringify rt v))
          (map (\<lambda>key. (key, normalizeObject rt d (get_prop ps key))) (sort (map fst ps)))
        = map (\<lambda>k. (k, JSON_stringify rt (normalizeObject rt d (get_prop ps k))))
            (sort (map fst ps))"
    by simp
  then show ?thesis
    by (simp add: stableStringify_def keys own_properties_keyed comp_def)
qed

text \<open>
  Claim C7, at an object with the keys \<open>10\<close> and \<open>9\<close>. The documentation of
  \<^verbatim>\<open>stableStringify\<close> says that it sorts the keys of objects alphabetically. The
  serialization writes the key \<open>9\<close> before the key \<open>10\<close>, while the sorted order of the two
  keys, the order in which the code inserts them, is \<open>10\<close> before \<open>9\<close>. The same text is
  written for the other order of insertion.
\<close>

theorem stableStringify_index_keys_unsorted:
  "stableStringify rt (JObject [(''10'', JString ''b''), (''9'', JString ''a'')]) d
     = ''{'' @ JSON_quote rt ''9'' @ '':'' @ JSON_quote rt ''a'' @ '','' @
       JSON_quote rt ''10'' @ '':'' @ JSON_quote rt ''b'' @ ''}'' \<and>
   stableStringify rt (JObject [(''9'', JString ''a''), (''10'', JString ''b'')]) d
     = ''{'' @ JSON_quote rt ''9'' @ '':'' @ JSON_quote rt ''a'' @ '','' @
       JSON_quote rt ''10'' @ '':'' @ JSON_quote rt ''b'' @ ''}'' \<and>
   sort [''9'', ''10''] = [''10'', ''9'']"
  by (simp add: stableStringify_object stableStringify_string visiting_order_def
        is_array_index_def index_val_def digits_val_def digit_val_def get_prop_def)

end
